theory Spec2Isabelle
  imports Complex_Main
begin

section \<open>Conventions of the model\<close>

text \<open>
  The theory embeds the capture and streaming server of the repository
  (\<^verbatim>\<open>src/server1.py\<close>, class \<^verbatim>\<open>SecurityRadarServer\<close>, and the older
  \<^verbatim>\<open>src/server.py\<close>, class \<^verbatim>\<open>ScreenCaptureServer\<close>) and the receiving loop of the
  viewer client (\<^verbatim>\<open>src/main1.py\<close>).

  \<^item> Python integers are \<open>int\<close>.
  \<^item> Python floats are exact rationals (\<open>rat\<close>): every property below compares or
    scales such numbers and none depends on how a float rounds.
  \<^item> A Python \<^verbatim>\<open>str\<close> is a \<open>string\<close>, one \<open>char\<close> per code point, so the model
    covers the code points below 256; the protocol's commands and packets are ASCII.
  \<^item> A method that mutates \<^verbatim>\<open>self\<close> takes the object and returns the new one next
    to its result; a reading of the clock (\<^verbatim>\<open>time.time()\<close>) is an argument.
  \<^item> An exception is a value of \<open>error\<close>; a \<^verbatim>\<open>try\<close> block is a case split on it.
  \<^item> Console output (\<^verbatim>\<open>print\<close>) is not part of the state.
\<close>

datatype error = ValueError | IndexError | ZeroDivisionError | OSError | UnicodeDecodeError
  | NotModelled

section \<open>ServerConfig (server1.py)\<close>

definition DEFAULT_FPS :: int where "DEFAULT_FPS = 10"
definition DEFAULT_QUALITY :: int where "DEFAULT_QUALITY = 60"
definition DEFAULT_MONITOR :: int where "DEFAULT_MONITOR = 1"
definition MOTION_DETECTION :: bool where "MOTION_DETECTION = True"
definition MOTION_THRESHOLD :: rat where "MOTION_THRESHOLD = 5"
definition MOTION_SENSITIVITY :: int where "MOTION_SENSITIVITY = 3"
definition ALERT_COOLDOWN :: rat where "ALERT_COOLDOWN = 3"

section \<open>collections.deque with maxlen\<close>

text \<open>\<^verbatim>\<open>deque.append\<close> on a bounded deque: the item goes to the right end and,
  when the deque is then longer than \<^verbatim>\<open>maxlen\<close>, the leftmost item is dropped.\<close>

definition deque_append :: "nat \<Rightarrow> 'a list \<Rightarrow> 'a \<Rightarrow> 'a list" where
  "deque_append maxlen d v =
     (let d' = d @ [v] in if maxlen < length d' then tl d' else d')"

section \<open>MonitoringZone\<close>

record MonitoringZone =
  zone_id :: int
  zone_name :: string
  zone_x :: int
  zone_y :: int
  zone_width :: int
  zone_height :: int
  zone_sensitivity :: int
  zone_enabled :: bool
  zone_motion_detected :: bool
  last_alert_time :: rat
  motion_history :: "bool list"

definition MonitoringZone_init ::
    "int \<Rightarrow> string \<Rightarrow> int \<Rightarrow> int \<Rightarrow> int \<Rightarrow> int \<Rightarrow> int \<Rightarrow> MonitoringZone" where
  "MonitoringZone_init zid nm x y w h sens =
     \<lparr> zone_id = zid, zone_name = nm, zone_x = x, zone_y = y, zone_width = w,
       zone_height = h, zone_sensitivity = sens, zone_enabled = True,
       zone_motion_detected = False, last_alert_time = 0, motion_history = [] \<rparr>"

definition get_bounds :: "MonitoringZone \<Rightarrow> int \<times> int \<times> int \<times> int" where
  "get_bounds self = (zone_x self, zone_y self, zone_x self + zone_width self,
                      zone_y self + zone_height self)"

definition check_motion :: "MonitoringZone \<Rightarrow> rat \<Rightarrow> bool \<times> MonitoringZone" where
  "check_motion self diff_percentage =
     (let threshold = MOTION_THRESHOLD * of_int (11 - zone_sensitivity self) / 10;
          detected = (diff_percentage > threshold);
          self' = self\<lparr> zone_motion_detected := detected,
                        motion_history := deque_append 10 (motion_history self) detected \<rparr>
      in (detected, self'))"

definition should_alert :: "MonitoringZone \<Rightarrow> rat \<Rightarrow> bool \<times> MonitoringZone" where
  "should_alert self current_time =
     (if current_time - last_alert_time self > ALERT_COOLDOWN
      then (True, self\<lparr> last_alert_time := current_time \<rparr>)
      else (False, self))"

section \<open>MotionDetector\<close>

text \<open>A grayscale (mode L) image is the list of its rows of pixel bytes. The
  conversion of a captured frame to grayscale belongs to the imaging library and is the
  parameter \<open>convert_L\<close> of \<open>detect_motion\<close>; \<open>None\<close> is the library raising.\<close>

type_synonym gray = "nat list list"

text \<open>\<^verbatim>\<open>ImageChops.difference\<close>: the absolute difference pixel by pixel, over the
  region the two images share.\<close>

definition difference :: "gray \<Rightarrow> gray \<Rightarrow> gray" where
  "difference a b =
     map2 (\<lambda>ra rb. map2 (\<lambda>p q. if p \<le> q then q - p else p - q) ra rb) a b"

text \<open>\<^verbatim>\<open>sum(stat.mean) / len(stat.mean)\<close> for \<^verbatim>\<open>stat = ImageStat.Stat(diff)\<close> on a
  one-band image: the sum of the pixels over their count; an image without pixels
  makes the division raise.\<close>

definition stat_mean :: "gray \<Rightarrow> error + rat" where
  "stat_mean img =
     (let px = concat img
      in if px = [] then Inl ZeroDivisionError
         else Inr (of_nat (sum_list px) / of_nat (length px)))"

record MotionDetector =
  previous_frame :: "gray option"
  md_enabled :: bool
  md_motion_detected :: bool
  motion_percentage :: rat
  md_sensitivity :: int
  detection_history :: "bool list"

definition MotionDetector_init :: MotionDetector where
  "MotionDetector_init =
     \<lparr> previous_frame = None, md_enabled = True, md_motion_detected = False,
       motion_percentage = 0, md_sensitivity = MOTION_SENSITIVITY,
       detection_history = [] \<rparr>"

definition detect_motion ::
    "('f \<Rightarrow> gray option) \<Rightarrow> MotionDetector \<Rightarrow> 'f \<Rightarrow> (bool \<times> rat) \<times> MotionDetector" where
  "detect_motion convert_L self current_frame =
     (if \<not> md_enabled self then ((False, 0), self)
      else case convert_L current_frame of
        None \<Rightarrow> ((False, 0), self)
      | Some current_gray \<Rightarrow>
         (case previous_frame self of
            None \<Rightarrow> ((False, 0), self\<lparr> previous_frame := Some current_gray \<rparr>)
          | Some prev \<Rightarrow>
             (case stat_mean (difference current_gray prev) of
                Inl e \<Rightarrow> ((False, 0), self)
              | Inr mean \<Rightarrow>
                 (let diff_percentage = mean / 255 * 100;
                      threshold = MOTION_THRESHOLD * of_int (11 - md_sensitivity self) / 10;
                      detected = (diff_percentage > threshold)
                  in ((detected, diff_percentage),
                      self\<lparr> detection_history :=
                               deque_append 30 (detection_history self) detected,
                            previous_frame := Some current_gray,
                            md_motion_detected := detected,
                            motion_percentage := diff_percentage \<rparr>)))))"

definition reset :: "MotionDetector \<Rightarrow> MotionDetector" where
  "reset self = self\<lparr> previous_frame := None, md_motion_detected := False,
                       motion_percentage := 0 \<rparr>"

text \<open>The threshold formula in the specification's words, for comparison with the
  expression the two methods compute.\<close>

definition effective_threshold :: "int \<Rightarrow> rat" where
  "effective_threshold sensitivity = MOTION_THRESHOLD * of_int (11 - sensitivity) / 10"

section \<open>Python strings and integers\<close>

definition py_isspace :: "char \<Rightarrow> bool" where
  \<comment> \<open>\<^verbatim>\<open>str.isspace\<close> on the code points below 256\<close>
  "py_isspace c = (of_char c \<in> {9, 10, 11, 12, 13, 28, 29, 30, 31, 32, 133, 160 :: nat})"

definition py_isdigit :: "char \<Rightarrow> bool" where
  "py_isdigit c = (48 \<le> (of_char c :: nat) \<and> (of_char c :: nat) \<le> 57)"

definition digit_value :: "char \<Rightarrow> int" where
  "digit_value c = int (of_char c) - 48"

definition strip_with :: "(char \<Rightarrow> bool) \<Rightarrow> string \<Rightarrow> string" where
  "strip_with space s = rev (dropWhile space (rev (dropWhile space s)))"

definition py_strip :: "string \<Rightarrow> string" where
  \<comment> \<open>\<^verbatim>\<open>str.strip()\<close>\<close>
  "py_strip s = strip_with py_isspace s"

definition py_lower_char :: "char \<Rightarrow> char" where
  \<comment> \<open>\<^verbatim>\<open>str.lower\<close> on one code point below 256\<close>
  "py_lower_char c =
     (let n = (of_char c :: nat)
      in if (65 \<le> n \<and> n \<le> 90) \<or> (192 \<le> n \<and> n \<le> 222 \<and> n \<noteq> 215)
         then char_of (n + 32) else c)"

definition py_lower :: "string \<Rightarrow> string" where
  "py_lower s = map py_lower_char s"

definition startswith :: "string \<Rightarrow> string \<Rightarrow> bool" where
  "startswith s p = (take (length p) s = p)"

text \<open>\<^verbatim>\<open>s.split(sep)\<close> for a one-character separator: the list of the pieces between
  the separators, never empty.\<close>

fun py_split :: "char \<Rightarrow> string \<Rightarrow> string list" where
  "py_split sep [] = [[]]"
| "py_split sep (c # cs) =
     (if c = sep then [] # py_split sep cs
      else (case py_split sep cs of
              [] \<Rightarrow> [[c]]
            | w # ws \<Rightarrow> (c # w) # ws))"

definition split_colon_1 :: "string \<Rightarrow> error + string" where
  \<comment> \<open>\<^verbatim>\<open>command.split(':')[1]\<close>\<close>
  "split_colon_1 command =
     (case py_split (CHR '':'') command of
        a # b # rest \<Rightarrow> Inr b
      | _ \<Rightarrow> Inl IndexError)"

text \<open>\<^verbatim>\<open>int(s)\<close> in base ten: surrounding whitespace is dropped, one sign may lead,
  and the digits may be grouped by single underscores. The whitespace \<^verbatim>\<open>int\<close> drops
  is the ASCII whitespace of C and the spaces beyond ASCII; unlike \<^verbatim>\<open>str.strip\<close> it
  keeps the separators 28 to 31, which then make the text no integer.\<close>

definition int_isspace :: "char \<Rightarrow> bool" where
  "int_isspace c = (of_char c \<in> {9, 10, 11, 12, 13, 32, 133, 160 :: nat})"

fun parse_digits :: "int \<Rightarrow> string \<Rightarrow> int option" where
  "parse_digits acc [] = Some acc"
| "parse_digits acc (c # cs) =
     (if py_isdigit c then parse_digits (acc * 10 + digit_value c) cs
      else if c = CHR ''_'' then
        (case cs of
           [] \<Rightarrow> None
         | d # ds \<Rightarrow> if py_isdigit d then parse_digits (acc * 10 + digit_value d) ds
                     else None)
      else None)"

definition digits_value :: "int \<Rightarrow> string \<Rightarrow> int" where
  \<comment> \<open>the number a run of digits denotes, continuing from \<open>acc\<close>\<close>
  "digits_value acc ds = foldl (\<lambda>a c. a * 10 + digit_value c) acc ds"

definition parse_unsigned :: "string \<Rightarrow> error + int" where
  "parse_unsigned s =
     (case s of
        [] \<Rightarrow> Inl ValueError
      | c # cs \<Rightarrow>
          if py_isdigit c
          then (case parse_digits (digit_value c) cs of
                  None \<Rightarrow> Inl ValueError
                | Some n \<Rightarrow> Inr n)
          else Inl ValueError)"

definition py_int :: "string \<Rightarrow> error + int" where
  "py_int s =
     (case strip_with int_isspace s of
        [] \<Rightarrow> Inl ValueError
      | c # cs \<Rightarrow>
          if c = CHR ''-'' then (case parse_unsigned cs of Inl e \<Rightarrow> Inl e | Inr n \<Rightarrow> Inr (- n))
          else if c = CHR ''+'' then parse_unsigned cs
          else parse_unsigned (c # cs))"

text \<open>\<^verbatim>\<open>str(n)\<close> for an integer: decimal digits, with a leading minus sign below zero.\<close>

fun str_nat :: "nat \<Rightarrow> string" where
  "str_nat n = (if n < 10 then [char_of (48 + n)]
                else str_nat (n div 10) @ [char_of (48 + n mod 10)])"

declare str_nat.simps [simp del]

definition str_int :: "int \<Rightarrow> string" where
  "str_int i = (if i < 0 then CHR ''-'' # str_nat (nat (- i)) else str_nat (nat i))"

text \<open>\<^verbatim>\<open>xs[i:j]\<close> and \<^verbatim>\<open>xs[i:]\<close>: an index below zero counts from the end, and both
  ends are clamped to the sequence.\<close>

definition slice_index :: "'a list \<Rightarrow> int \<Rightarrow> nat" where
  "slice_index xs i =
     (if i < 0 then nat (max 0 (int (length xs) + i)) else min (nat i) (length xs))"

definition py_slice :: "'a list \<Rightarrow> int \<Rightarrow> int \<Rightarrow> 'a list" where
  "py_slice xs i j = take (slice_index xs j - slice_index xs i) (drop (slice_index xs i) xs)"

definition py_slice_from :: "'a list \<Rightarrow> int \<Rightarrow> 'a list" where
  "py_slice_from xs i = drop (slice_index xs i) xs"

text \<open>\<^verbatim>\<open>int(x)\<close> for a float: truncation towards zero.\<close>

definition trunc :: "rat \<Rightarrow> int" where
  "trunc x = (if 0 \<le> x then \<lfloor>x\<rfloor> else \<lceil>x\<rceil>)"

text \<open>\<^verbatim>\<open>round(x, 2)\<close>: the nearest multiple of one hundredth, a tie going to the
  even one.\<close>

definition round2 :: "rat \<Rightarrow> rat" where
  "round2 x =
     (let y = x * 100; f = \<lfloor>y\<rfloor>; d = y - of_int f
      in of_int (if d < 1 / 2 then f
                 else if 1 / 2 < d then f + 1
                 else if even f then f else f + 1) / 100)"

text \<open>UTF-8. \<^verbatim>\<open>str.encode('utf-8')\<close> writes a code point below 128 as one byte and a
  code point from 128 to 255 as two; \<^verbatim>\<open>bytes.decode('utf-8')\<close> reads them back. A
  byte string is a \<open>string\<close> too, one \<open>char\<close> per byte. Bytes that are no encoding
  of code points below 256 end a run of the model with \<open>NotModelled\<close>: Python either
  raises \<^verbatim>\<open>UnicodeDecodeError\<close> on them or decodes a code point the model has no
  character for.\<close>

definition ascii :: "string \<Rightarrow> bool" where
  "ascii s = list_all (\<lambda>c. (of_char c :: nat) < 128) s"

definition utf8_encode_char :: "char \<Rightarrow> string" where
  "utf8_encode_char c =
     (let n = (of_char c :: nat)
      in if n < 128 then [c] else [char_of (192 + n div 64), char_of (128 + n mod 64)])"

definition utf8_encode :: "string \<Rightarrow> string" where
  "utf8_encode s = concat (map utf8_encode_char s)"

fun utf8_decode :: "string \<Rightarrow> error + string" where
  "utf8_decode [] = Inr []"
| "utf8_decode (b # bs) =
     (if (of_char b :: nat) < 128
      then (case utf8_decode bs of Inl e \<Rightarrow> Inl e | Inr s \<Rightarrow> Inr (b # s))
      else if (of_char b :: nat) = 194 \<or> (of_char b :: nat) = 195
      then (case bs of
              [] \<Rightarrow> Inl UnicodeDecodeError
            | b2 # bs' \<Rightarrow>
                if 128 \<le> (of_char b2 :: nat) \<and> (of_char b2 :: nat) < 192
                then (case utf8_decode bs' of
                        Inl e \<Rightarrow> Inl e
                      | Inr s \<Rightarrow> Inr (char_of ((of_char b - 192) * 64 + (of_char b2 - 128) :: nat) # s))
                else Inl UnicodeDecodeError)
      else Inl NotModelled)"

section \<open>JSON documents\<close>

text \<open>The dictionaries the server serialises (a packet, the statistics) map string
  keys to strings, integers, floats and booleans. A dictionary is the list of its items
  in insertion order. \<open>json_dumps\<close> follows \<^verbatim>\<open>json.dumps\<close> with its default
  arguments (items separated by a comma and a space, key and value by a colon and a
  space, every character outside the printable ASCII range escaped) and \<open>json_loads\<close>
  follows \<^verbatim>\<open>json.loads\<close> on documents of this shape; a nested value or a special
  float is \<open>NotModelled\<close>. How a float prints and how a number with a fraction or an
  exponent is read are the parameters \<open>float_repr\<close> and \<open>float_of\<close>.\<close>

datatype jval = JStr string | JInt int | JFloat rat | JBool bool | JNull

type_synonym jdict = "(string \<times> jval) list"

definition dict_set :: "'k \<Rightarrow> 'v \<Rightarrow> ('k \<times> 'v) list \<Rightarrow> ('k \<times> 'v) list" where
  \<comment> \<open>\<^verbatim>\<open>d[k] = v\<close>: a present key keeps its place, a new key goes to the end\<close>
  "dict_set k v d =
     (if k \<in> fst ` set d then map (\<lambda>(k', v'). if k' = k then (k', v) else (k', v')) d
      else d @ [(k, v)])"

definition dict_values :: "('k \<times> 'v) list \<Rightarrow> 'v list" where
  "dict_values d = map snd d"

definition hexdigit :: "nat \<Rightarrow> char" where
  "hexdigit k = (if k < 10 then char_of (48 + k) else char_of (87 + k))"

definition unhex :: "char \<Rightarrow> nat option" where
  "unhex c =
     (let n = (of_char c :: nat)
      in if 48 \<le> n \<and> n \<le> 57 then Some (n - 48)
         else if 97 \<le> n \<and> n \<le> 102 then Some (n - 87)
         else if 65 \<le> n \<and> n \<le> 70 then Some (n - 55)
         else None)"

definition escape_char :: "char \<Rightarrow> string" where
  "escape_char c =
     (let n = (of_char c :: nat)
      in if c = CHR 0x22 then [CHR 0x5C, CHR 0x22]
         else if c = CHR 0x5C then [CHR 0x5C, CHR 0x5C]
         else if n = 10 then [CHR 0x5C, CHR ''n'']
         else if n = 13 then [CHR 0x5C, CHR ''r'']
         else if n = 9 then [CHR 0x5C, CHR ''t'']
         else if n = 12 then [CHR 0x5C, CHR ''f'']
         else if n = 8 then [CHR 0x5C, CHR ''b'']
         else if n < 32 \<or> 126 < n
         then [CHR 0x5C, CHR ''u'', CHR ''0'', CHR ''0'', hexdigit (n div 16), hexdigit (n mod 16)]
         else [c])"

definition encode_basestring_ascii :: "string \<Rightarrow> string" where
  "encode_basestring_ascii s = CHR 0x22 # concat (map escape_char s) @ [CHR 0x22]"

definition dumps_value :: "(rat \<Rightarrow> string) \<Rightarrow> jval \<Rightarrow> string" where
  "dumps_value float_repr v =
     (case v of
        JStr s \<Rightarrow> encode_basestring_ascii s
      | JInt i \<Rightarrow> str_int i
      | JFloat x \<Rightarrow> float_repr x
      | JBool b \<Rightarrow> (if b then ''true'' else ''false'')
      | JNull \<Rightarrow> ''null'')"

definition dumps_item :: "(rat \<Rightarrow> string) \<Rightarrow> string \<times> jval \<Rightarrow> string" where
  "dumps_item float_repr kv =
     encode_basestring_ascii (fst kv) @ '': '' @ dumps_value float_repr (snd kv)"

fun join_items :: "string list \<Rightarrow> string" where
  "join_items [] = []"
| "join_items [x] = x"
| "join_items (x # y # zs) = x @ '', '' @ join_items (y # zs)"

definition json_dumps :: "(rat \<Rightarrow> string) \<Rightarrow> jdict \<Rightarrow> string" where
  "json_dumps float_repr d = ''{'' @ join_items (map (dumps_item float_repr) d) @ ''}''"

subsection \<open>Reading a document\<close>

definition json_ws :: "char \<Rightarrow> bool" where
  "json_ws c = (c = CHR '' '' \<or> (of_char c :: nat) = 9 \<or> (of_char c :: nat) = 10
                \<or> (of_char c :: nat) = 13)"

definition skip_ws :: "string \<Rightarrow> string" where
  "skip_ws s = dropWhile json_ws s"

definition unescape :: "char \<Rightarrow> char option" where
  "unescape e =
     (if e = CHR 0x22 then Some (CHR 0x22)
      else if e = CHR 0x5C then Some (CHR 0x5C)
      else if e = CHR ''/'' then Some (CHR ''/'')
      else if e = CHR ''b'' then Some (char_of (8 :: nat))
      else if e = CHR ''f'' then Some (char_of (12 :: nat))
      else if e = CHR ''n'' then Some (char_of (10 :: nat))
      else if e = CHR ''r'' then Some (char_of (13 :: nat))
      else if e = CHR ''t'' then Some (char_of (9 :: nat))
      else None)"

definition unhex4 :: "char \<Rightarrow> char \<Rightarrow> char \<Rightarrow> char \<Rightarrow> nat option" where
  "unhex4 a b c d =
     (case (unhex a, unhex b, unhex c, unhex d) of
        (Some x, Some y, Some z, Some w) \<Rightarrow> Some (((x * 16 + y) * 16 + z) * 16 + w)
      | _ \<Rightarrow> None)"

definition cons_result :: "char \<Rightarrow> error + string \<times> string \<Rightarrow> error + string \<times> string" where
  "cons_result c r = (case r of Inl e \<Rightarrow> Inl e | Inr (s, rest) \<Rightarrow> Inr (c # s, rest))"

text \<open>The characters of a string after its opening quote, up to the closing quote;
  the result is the string and the input that follows it.\<close>

fun scan_string :: "string \<Rightarrow> error + string \<times> string" where
  "scan_string [] = Inl ValueError"
| "scan_string (c # cs) =
     (if c = CHR 0x22 then Inr ([], cs)
      else if c = CHR 0x5C then
        (case cs of
           [] \<Rightarrow> Inl ValueError
         | e # r \<Rightarrow>
             if e = CHR ''u'' then
               (case r of
                  h1 # h2 # h3 # h4 # r' \<Rightarrow>
                    (case unhex4 h1 h2 h3 h4 of
                       None \<Rightarrow> Inl ValueError
                     | Some n \<Rightarrow> if n < 256 then cons_result (char_of n) (scan_string r')
                                 else Inl NotModelled)
                | _ \<Rightarrow> Inl ValueError)
             else (case unescape e of
                     None \<Rightarrow> Inl ValueError
                   | Some ch \<Rightarrow> cons_result ch (scan_string r)))
      else if (of_char c :: nat) < 32 then Inl ValueError
      else cons_result c (scan_string cs))"

definition number_char :: "char \<Rightarrow> bool" where
  "number_char c = (py_isdigit c \<or> c = CHR ''-'' \<or> c = CHR ''+'' \<or> c = CHR ''.''
                    \<or> c = CHR ''e'' \<or> c = CHR ''E'')"

definition json_int_part :: "string \<Rightarrow> bool" where
  \<comment> \<open>\<^verbatim>\<open>0|[1-9]\\d*\<close>\<close>
  "json_int_part s = (s = ''0'' \<or> (s \<noteq> [] \<and> list_all py_isdigit s \<and> hd s \<noteq> CHR ''0''))"

definition json_exponent :: "string \<Rightarrow> bool" where
  \<comment> \<open>\<^verbatim>\<open>[eE][-+]?\\d+\<close>\<close>
  "json_exponent s =
     (case s of
        [] \<Rightarrow> False
      | c # cs \<Rightarrow> (c = CHR ''e'' \<or> c = CHR ''E'')
          \<and> (case cs of
                 [] \<Rightarrow> False
               | d # ds \<Rightarrow> if d = CHR ''-'' \<or> d = CHR ''+''
                           then ds \<noteq> [] \<and> list_all py_isdigit ds
                           else list_all py_isdigit (d # ds)))"

definition json_int_token :: "string \<Rightarrow> bool" where
  \<comment> \<open>\<^verbatim>\<open>-?(0|[1-9]\\d*)\<close>\<close>
  "json_int_token s = (case s of [] \<Rightarrow> False
                       | c # cs \<Rightarrow> if c = CHR ''-'' then json_int_part cs
                                   else json_int_part (c # cs))"

definition json_float_token :: "string \<Rightarrow> bool" where
  \<comment> \<open>\<^verbatim>\<open>-?(0|[1-9]\\d*)(\\.\\d+)?([eE][-+]?\\d+)?\<close> with the fraction or the exponent there\<close>
  "json_float_token s =
     (let u = (case s of [] \<Rightarrow> [] | c # cs \<Rightarrow> if c = CHR ''-'' then cs else c # cs);
          ip = takeWhile py_isdigit u;
          r = dropWhile py_isdigit u
      in json_int_part ip \<and>
         (case r of
            [] \<Rightarrow> False
          | c # cs \<Rightarrow>
              if c = CHR ''.''
              then takeWhile py_isdigit cs \<noteq> []
                   \<and> (dropWhile py_isdigit cs = [] \<or> json_exponent (dropWhile py_isdigit cs))
              else json_exponent (c # cs)))"

definition numeric_head :: "string \<Rightarrow> bool" where
  \<comment> \<open>a digit, or a minus sign and a digit, comes first\<close>
  "numeric_head s =
     (case s of
        [] \<Rightarrow> False
      | c # cs \<Rightarrow> py_isdigit c
          \<or> (c = CHR ''-'' \<and> (case cs of [] \<Rightarrow> False | d # ds \<Rightarrow> py_isdigit d)))"

definition scan_number :: "(string \<Rightarrow> rat) \<Rightarrow> string \<Rightarrow> error + jval \<times> string" where
  "scan_number float_of s =
     (let tok = takeWhile number_char s; rest = dropWhile number_char s
      in if json_int_token tok
         then (case py_int tok of Inl e \<Rightarrow> Inl e | Inr i \<Rightarrow> Inr (JInt i, rest))
         else if json_float_token tok then Inr (JFloat (float_of tok), rest)
         else Inl ValueError)"

definition scan_value :: "(string \<Rightarrow> rat) \<Rightarrow> string \<Rightarrow> error + jval \<times> string" where
  "scan_value float_of s =
     (case s of
        [] \<Rightarrow> Inl ValueError
      | c # cs \<Rightarrow>
          if c = CHR 0x22
          then (case scan_string cs of Inl e \<Rightarrow> Inl e | Inr (t, rest) \<Rightarrow> Inr (JStr t, rest))
          else if startswith s ''true'' then Inr (JBool True, drop 4 s)
          else if startswith s ''false'' then Inr (JBool False, drop 5 s)
          else if startswith s ''null'' then Inr (JNull, drop 4 s)
          else if c = CHR ''{'' \<or> c = CHR ''['' \<or> startswith s ''NaN''
                  \<or> startswith s ''Infinity'' \<or> startswith s ''-Infinity''
          then Inl NotModelled
          else scan_number float_of s)"

text \<open>The items of an object after its opening brace: a key, a colon, a value, and
  then a comma and the next item, or the closing brace. The argument \<open>n\<close> bounds the
  number of items by the length of the input, which every item shortens.\<close>

fun scan_items :: "(string \<Rightarrow> rat) \<Rightarrow> nat \<Rightarrow> string \<Rightarrow> error + jdict \<times> string" where
  "scan_items float_of 0 s = Inl ValueError"
| "scan_items float_of (Suc n) s =
     (case s of
        [] \<Rightarrow> Inl ValueError
      | c # cs \<Rightarrow>
          if c \<noteq> CHR 0x22 then Inl ValueError
          else (case scan_string cs of
                  Inl e \<Rightarrow> Inl e
                | Inr (key, r1) \<Rightarrow>
                    (case skip_ws r1 of
                       [] \<Rightarrow> Inl ValueError
                     | c2 # r2 \<Rightarrow>
                         if c2 \<noteq> CHR '':'' then Inl ValueError
                         else (case scan_value float_of (skip_ws r2) of
                                 Inl e \<Rightarrow> Inl e
                               | Inr (v, r3) \<Rightarrow>
                                   (case skip_ws r3 of
                                      [] \<Rightarrow> Inl ValueError
                                    | c4 # r4 \<Rightarrow>
                                        if c4 = CHR ''}'' then Inr ([(key, v)], r4)
                                        else if c4 = CHR '','' then
                                          (case scan_items float_of n (skip_ws r4) of
                                             Inl e \<Rightarrow> Inl e
                                           | Inr (items, r5) \<Rightarrow> Inr ((key, v) # items, r5))
                                        else Inl ValueError)))))"

declare scan_items.simps [simp del]

definition dict_of_items :: "jdict \<Rightarrow> jdict" where
  \<comment> \<open>the dictionary built from the items read: a repeated key keeps its last value\<close>
  "dict_of_items items = fold (\<lambda>(k, v) d. dict_set k v d) items []"

definition json_loads :: "(string \<Rightarrow> rat) \<Rightarrow> string \<Rightarrow> error + jdict" where
  "json_loads float_of s =
     (case skip_ws s of
        [] \<Rightarrow> Inl ValueError
      | c # cs \<Rightarrow>
          if c = CHR ''{'' then
            (case skip_ws cs of
               [] \<Rightarrow> Inl ValueError
             | c1 # r1 \<Rightarrow>
                 if c1 = CHR ''}''
                 then (if skip_ws r1 = [] then Inr [] else Inl ValueError)
                 else (case scan_items float_of (length cs) (c1 # r1) of
                         Inl e \<Rightarrow> Inl e
                       | Inr (items, rest) \<Rightarrow>
                           if skip_ws rest = [] then Inr (dict_of_items items)
                           else Inl ValueError))
          else Inl NotModelled)"

subsection \<open>What the round trip asks of the float parameters\<close>

text \<open>Python prints a finite float as a number with a fraction or an exponent, and
  reads that text back as the same float.\<close>

definition float_round_trip :: "(rat \<Rightarrow> string) \<Rightarrow> (string \<Rightarrow> rat) \<Rightarrow> rat \<Rightarrow> bool" where
  "float_round_trip float_repr float_of x =
     (json_float_token (float_repr x) \<and> float_of (float_repr x) = x)"

fun floats_of :: "jdict \<Rightarrow> rat list" where
  "floats_of [] = []"
| "floats_of ((k, v) # d) = (case v of JFloat x \<Rightarrow> x # floats_of d | _ \<Rightarrow> floats_of d)"

section \<open>Connections\<close>

text \<open>A socket records what was handed to \<^verbatim>\<open>send\<close> and \<^verbatim>\<open>sendall\<close>, in order.
  Sending on a socket that is closed, or whose peer is gone (\<open>broken\<close>), raises
  \<^verbatim>\<open>OSError\<close> or one of its subclasses.\<close>

record sock =
  sent :: "string list"
  broken :: bool
  closed :: bool

definition sock_send :: "sock \<Rightarrow> string \<Rightarrow> error + sock" where
  "sock_send s data =
     (if closed s \<or> broken s then Inl OSError else Inr (s\<lparr> sent := sent s @ [data] \<rparr>))"

definition sock_close :: "sock \<Rightarrow> sock" where
  "sock_close s = s\<lparr> closed := True \<rparr>"

text \<open>The dictionary \<^verbatim>\<open>client_info\<close> of one accepted connection. The accept loop
  builds one dictionary per accepted socket and a socket compares by identity, so a
  dictionary is named by the number of its connection: the registry
  \<^verbatim>\<open>self.clients\<close> is a list of such numbers and \<open>conns\<close> holds the objects they
  name, which the client's handler and the broadcast share.\<close>

record client_info =
  ci_socket :: sock
  ci_address :: "string \<times> int"
  ci_connected_at :: rat
  ci_motion_enabled :: bool
  ci_alerts_enabled :: bool

type_synonym conn = nat

section \<open>SecurityRadarServer (server1.py)\<close>

record SecurityRadarServer =
  host :: string
  port :: int
  clients :: "conn list"
  conns :: "conn \<Rightarrow> client_info"
  running :: bool
  capture_fps :: int
  quality :: int
  screen_monitor :: int
  motion_detector :: MotionDetector
  motion_enabled :: bool
  alerts_enabled :: bool
  zones :: "(int \<times> MonitoringZone) list"
  threat_level :: int
  frames_sent :: int
  total_bytes_sent :: int
  motion_events :: int
  alerts_sent :: int
  start_time :: "rat option"

definition initialize_default_zones :: "SecurityRadarServer \<Rightarrow> SecurityRadarServer" where
  "initialize_default_zones self =
     (let z1 = dict_set 1 (MonitoringZone_init 1 ''Entry Point'' 0 0 640 360 5) (zones self);
          z2 = dict_set 2 (MonitoringZone_init 2 ''Perimeter'' 640 0 640 360 4) z1;
          z3 = dict_set 3 (MonitoringZone_init 3 ''Restricted Area'' 0 360 640 360 7) z2;
          z4 = dict_set 4 (MonitoringZone_init 4 ''Parking'' 640 360 640 360 3) z3
      in self\<lparr> zones := z4 \<rparr>)"

definition SecurityRadarServer_init ::
    "string \<Rightarrow> int \<Rightarrow> (conn \<Rightarrow> client_info) \<Rightarrow> SecurityRadarServer" where
  "SecurityRadarServer_init h p objs =
     initialize_default_zones
       \<lparr> host = h, port = p, clients = [], conns = objs, running = False,
         capture_fps = DEFAULT_FPS, quality = DEFAULT_QUALITY,
         screen_monitor = DEFAULT_MONITOR, motion_detector = MotionDetector_init,
         motion_enabled = MOTION_DETECTION, alerts_enabled = True, zones = [],
         threat_level = 0, frames_sent = 0, total_bytes_sent = 0, motion_events = 0,
         alerts_sent = 0, start_time = None \<rparr>"

definition get_statistics :: "rat \<Rightarrow> SecurityRadarServer \<Rightarrow> jdict" where
  \<comment> \<open>\<open>now\<close> is the reading of \<^verbatim>\<open>datetime.now()\<close>, in seconds\<close>
  "get_statistics now self =
     (let client_count = int (length (clients self));
          uptime = (case start_time self of None \<Rightarrow> 0 | Some t \<Rightarrow> now - t)
      in [(''running'', JBool (running self)),
          (''clients'', JInt client_count),
          (''fps'', JInt (capture_fps self)),
          (''quality'', JInt (quality self)),
          (''frames_sent'', JInt (frames_sent self)),
          (''total_bytes_sent'', JInt (total_bytes_sent self)),
          (''uptime'', JInt (trunc uptime)),
          (''motion_enabled'', JBool (motion_enabled self)),
          (''motion_events'', JInt (motion_events self)),
          (''alerts_sent'', JInt (alerts_sent self)),
          (''threat_level'', JInt (threat_level self)),
          (''zones'', JInt (int (length (zones self))))])"

subsection \<open>Commands of a client\<close>

definition client_send :: "conn \<Rightarrow> string \<Rightarrow> SecurityRadarServer \<Rightarrow> error + SecurityRadarServer" where
  \<comment> \<open>\<^verbatim>\<open>client_socket.send(data)\<close> on the socket of connection \<open>c\<close>\<close>
  "client_send c data self =
     (case sock_send (ci_socket (conns self c)) data of
        Inl e \<Rightarrow> Inl e
      | Inr s \<Rightarrow> Inr (self\<lparr> conns := (conns self)(c := (conns self c)\<lparr> ci_socket := s \<rparr>) \<rparr>))"

definition or_else :: "'a \<Rightarrow> error + 'a \<Rightarrow> 'a" where
  \<comment> \<open>the end of a \<^verbatim>\<open>try\<close> block whose handler only logs: the state reached before the
     statement that raised\<close>
  "or_else reached r = (case r of Inl e \<Rightarrow> reached | Inr s \<Rightarrow> s)"

definition process_command ::
    "rat \<Rightarrow> conn \<Rightarrow> string \<Rightarrow> SecurityRadarServer \<Rightarrow> SecurityRadarServer" where
  "process_command now c command self =
     (if command = ''PING'' then or_else self (client_send c ''PONG'' self)
      else if startswith command ''SET_FPS:'' then
        (case (case split_colon_1 command of Inl e \<Rightarrow> Inl e | Inr a \<Rightarrow> py_int a) of
           Inl e \<Rightarrow> self
         | Inr fps \<Rightarrow>
             (let self1 = self\<lparr> capture_fps := max 1 (min 30 fps) \<rparr>
              in or_else self1
                   (client_send c (utf8_encode (''FPS_SET:'' @ str_int (capture_fps self1))) self1)))
      else if startswith command ''SET_QUALITY:'' then
        (case (case split_colon_1 command of Inl e \<Rightarrow> Inl e | Inr a \<Rightarrow> py_int a) of
           Inl e \<Rightarrow> self
         | Inr q \<Rightarrow>
             (let self1 = self\<lparr> quality := max 10 (min 100 q) \<rparr>
              in or_else self1
                   (client_send c (utf8_encode (''QUALITY_SET:'' @ str_int (quality self1))) self1)))
      else if startswith command ''ENABLE_MOTION:'' then
        (case split_colon_1 command of
           Inl e \<Rightarrow> self
         | Inr a \<Rightarrow>
             self\<lparr> conns := (conns self)
                     (c := (conns self c)\<lparr> ci_motion_enabled := (py_lower a = ''true'') \<rparr>) \<rparr>)
      else if startswith command ''ENABLE_ALERTS:'' then
        (case split_colon_1 command of
           Inl e \<Rightarrow> self
         | Inr a \<Rightarrow>
             self\<lparr> conns := (conns self)
                     (c := (conns self c)\<lparr> ci_alerts_enabled := (py_lower a = ''true'') \<rparr>) \<rparr>)
      else if command = ''MANUAL_ALERT'' then self\<lparr> alerts_sent := alerts_sent self + 1 \<rparr>
      else if startswith command ''SET_SENSITIVITY:'' then
        (case (case split_colon_1 command of Inl e \<Rightarrow> Inl e | Inr a \<Rightarrow> py_int a) of
           Inl e \<Rightarrow> self
         | Inr sensitivity \<Rightarrow>
             self\<lparr> motion_detector :=
                     (motion_detector self)\<lparr> md_sensitivity := max 1 (min 10 sensitivity) \<rparr> \<rparr>)
      else if command = ''GET_STATS'' then
        \<comment> \<open>the statistics hold no float, so the float printer is never applied\<close>
        or_else self
          (client_send c (utf8_encode (json_dumps (\<lambda>x. []) (get_statistics now self))) self)
      else self)"

subsection \<open>The registry and the broadcast\<close>

definition remove_client :: "conn \<Rightarrow> SecurityRadarServer \<Rightarrow> SecurityRadarServer" where
  "remove_client c self =
     (if c \<in> set (clients self)
      then self\<lparr> clients := remove1 c (clients self),
                 conns := (conns self)
                   (c := (conns self c)\<lparr> ci_socket := sock_close (ci_socket (conns self c)) \<rparr>) \<rparr>
      else self)"

definition send_raises :: "(conn \<Rightarrow> client_info) \<Rightarrow> conn \<Rightarrow> bool" where
  \<comment> \<open>whether a send on the socket of connection \<open>c\<close> raises\<close>
  "send_raises objs c = (closed (ci_socket (objs c)) \<or> broken (ci_socket (objs c)))"

text \<open>The loop over the snapshot \<^verbatim>\<open>self.clients[:]\<close>: every client is sent the
  message; one whose send raises is noted in \<open>disconnected\<close> and the loop goes on.\<close>

fun send_loop ::
    "string \<Rightarrow> conn list \<Rightarrow> (conn \<Rightarrow> client_info) \<Rightarrow> conn list
      \<Rightarrow> (conn \<Rightarrow> client_info) \<times> conn list" where
  "send_loop message [] objs disconnected = (objs, disconnected)"
| "send_loop message (c # cs) objs disconnected =
     (case sock_send (ci_socket (objs c)) message of
        Inl e \<Rightarrow> send_loop message cs objs (disconnected @ [c])
      | Inr s \<Rightarrow> send_loop message cs (objs(c := (objs c)\<lparr> ci_socket := s \<rparr>)) disconnected)"

definition wire_message :: "(rat \<Rightarrow> string) \<Rightarrow> jdict \<Rightarrow> string" where
  \<comment> \<open>\<^verbatim>\<open>f"{len(json_data)}|{json_data}".encode('utf-8')\<close>\<close>
  "wire_message float_repr packet =
     (let json_data = json_dumps float_repr packet
      in utf8_encode (str_int (int (length json_data)) @ ''|'' @ json_data))"

definition broadcast_packet ::
    "(rat \<Rightarrow> string) \<Rightarrow> jdict \<Rightarrow> SecurityRadarServer \<Rightarrow> SecurityRadarServer" where
  "broadcast_packet float_repr packet self =
     (let message = wire_message float_repr packet;
          (objs, disconnected) = send_loop message (clients self) (conns self) []
      in fold remove_client disconnected (self\<lparr> conns := objs \<rparr>))"

subsection \<open>The capture loop\<close>

definition process_motion_event :: "rat \<Rightarrow> SecurityRadarServer \<Rightarrow> SecurityRadarServer" where
  "process_motion_event percentage self =
     (if 20 < percentage then self\<lparr> threat_level := 3 \<rparr>
      else if 10 < percentage then self\<lparr> threat_level := 2 \<rparr>
      else self\<lparr> threat_level := 1 \<rparr>)"

fun first_zone_with_motion :: "MonitoringZone list \<Rightarrow> string" where
  "first_zone_with_motion [] = ''Unknown''"
| "first_zone_with_motion (zone # rest) =
     (if zone_motion_detected zone then zone_name zone else first_zone_with_motion rest)"

definition get_active_zone :: "SecurityRadarServer \<Rightarrow> string" where
  "get_active_zone self = first_zone_with_motion (dict_values (zones self))"

text \<open>What the screen grabber, the resize and the JPEG encoder deliver in one
  iteration of the loop: the image, its size, the base64 text of the encoded image and
  the number of encoded bytes; \<open>tick_time\<close> is the reading of \<^verbatim>\<open>time.time()\<close>.\<close>

record 'f tick_input =
  tick_img :: 'f
  tick_width :: int
  tick_height :: int
  tick_base64 :: string
  tick_nbytes :: int
  tick_time :: rat

definition capture_tick ::
    "('f \<Rightarrow> gray option) \<Rightarrow> (rat \<Rightarrow> string) \<Rightarrow> 'f tick_input \<Rightarrow> SecurityRadarServer
      \<Rightarrow> jdict \<times> SecurityRadarServer" where
  "capture_tick convert_L float_repr inp self =
     (let (detected, percentage, self1) =
            (if motion_enabled self
             then (let (r, md) = detect_motion convert_L (motion_detector self) (tick_img inp);
                       s = self\<lparr> motion_detector := md \<rparr>
                   in (fst r, snd r,
                       if fst r
                       then process_motion_event (snd r)
                              (s\<lparr> motion_events := motion_events s + 1 \<rparr>)
                       else s))
             else (False, 0, self));
          packet = [(''type'', JStr ''screen_frame''),
                    (''timestamp'', JFloat (tick_time inp)),
                    (''width'', JInt (tick_width inp)),
                    (''height'', JInt (tick_height inp)),
                    (''data'', JStr (tick_base64 inp)),
                    (''motion_detected'', JBool detected),
                    (''motion_percentage'', JFloat (round2 percentage)),
                    (''threat_level'', JInt (threat_level self1)),
                    (''zone'', JStr (get_active_zone self1))];
          self2 = broadcast_packet float_repr packet self1
      in (packet, self2\<lparr> frames_sent := frames_sent self2 + 1,
                         total_bytes_sent := total_bytes_sent self2 + tick_nbytes inp \<rparr>))"

subsection \<open>The analytics loop\<close>

definition analytics_step :: "SecurityRadarServer \<Rightarrow> SecurityRadarServer" where
  \<comment> \<open>one iteration, after its sleep of five seconds\<close>
  "analytics_step self =
     (let self1 = (if \<not> md_motion_detected (motion_detector self) \<and> 0 < threat_level self
                   then self\<lparr> threat_level := max 0 (threat_level self - 1) \<rparr> else self);
          history = detection_history (motion_detector self1);
          recent_motion = length (filter (\<lambda>x. x) history);
          motion_rate = (if history \<noteq> [] then rat_of_nat recent_motion / rat_of_nat (length history)
                         else 0)
      in if 1 / 2 < motion_rate
         then self1\<lparr> threat_level := min 3 (threat_level self1 + 1) \<rparr> else self1)"

text \<open>The analyzer's two rules in the specification's words, on the level alone:
  decay by one when no motion is flagged and the level is above zero, then escalation
  by one, capped at three, when more than half of the history is true.\<close>

definition spec_decay :: "bool \<Rightarrow> int \<Rightarrow> int" where
  "spec_decay motion level = (if \<not> motion \<and> 0 < level then level - 1 else level)"

definition spec_fraction :: "bool list \<Rightarrow> rat" where
  "spec_fraction history =
     (if history = [] then 0
      else rat_of_nat (length (filter (\<lambda>x. x) history)) / rat_of_nat (length history))"

definition spec_escalate :: "bool list \<Rightarrow> int \<Rightarrow> int" where
  "spec_escalate history level =
     (if 1 / 2 < spec_fraction history then (if level < 3 then level + 1 else 3) else level)"



subsection \<open>The operator's console\<close>

text \<open>The commands of \<^verbatim>\<open>ServerCLI.handle_command\<close> that change the server;
  \<open>line\<close> is what \<^verbatim>\<open>input()\<close> returns when the command asks for a number. The
  result is the loop's continue flag and the server.\<close>

definition handle_command ::
    "string \<Rightarrow> string \<Rightarrow> SecurityRadarServer \<Rightarrow> bool \<times> SecurityRadarServer" where
  "handle_command cmd0 line self =
     (let cmd = py_lower (py_strip cmd0)
      in if cmd = ''quit'' then (False, self)
         else if cmd = ''status'' then (True, self)
         else if cmd = ''zones'' then (True, self)
         else if cmd = ''motion'' then (True, self\<lparr> motion_enabled := \<not> motion_enabled self \<rparr>)
         else if cmd = ''sensitivity'' then
           (case py_int line of
              Inl e \<Rightarrow> (True, self)
            | Inr sens \<Rightarrow>
                (True, self\<lparr> motion_detector :=
                         (motion_detector self)\<lparr> md_sensitivity := max 1 (min 10 sens) \<rparr> \<rparr>))
         else if cmd = ''fps'' then
           (case py_int line of
              Inl e \<Rightarrow> (True, self)
            | Inr fps \<Rightarrow> (True, self\<lparr> capture_fps := max 1 (min 30 fps) \<rparr>))
         else if cmd = ''quality'' then
           (case py_int line of
              Inl e \<Rightarrow> (True, self)
            | Inr q \<Rightarrow> (True, self\<lparr> quality := max 10 (min 100 q) \<rparr>))
         else if cmd = ''monitor'' then
           (case py_int line of
              Inl e \<Rightarrow> (True, self)
            | Inr monitor \<Rightarrow> (True, self\<lparr> screen_monitor := monitor \<rparr>))
         else if cmd = ''clients'' then (True, self)
         else if cmd = ''alerts'' then (True, self)
         else if cmd = ''reset'' then
           (True, self\<lparr> motion_detector := reset (motion_detector self),
                        threat_level := 0, motion_events := 0 \<rparr>)
         else (True, self))"

section \<open>ScreenCaptureServer (server.py)\<close>

text \<open>The older server has the same registry and the same broadcast; of its state the
  model keeps the capture settings and the counters, which is what its commands read
  and write, and the socket of the client that sent the command. Its names carry the
  prefix \<open>basic_\<close> where they would clash with the newer server's.\<close>

definition basic_DEFAULT_FPS :: int where "basic_DEFAULT_FPS = 60"
definition basic_DEFAULT_QUALITY :: int where "basic_DEFAULT_QUALITY = 60"
definition basic_DEFAULT_MONITOR :: int where "basic_DEFAULT_MONITOR = 1"

record ScreenCaptureServer =
  basic_running :: bool
  basic_capture_fps :: int
  basic_quality :: int
  basic_screen_monitor :: int
  basic_frames_sent :: int
  basic_total_bytes_sent :: int

definition ScreenCaptureServer_init :: ScreenCaptureServer where
  "ScreenCaptureServer_init =
     \<lparr> basic_running = False, basic_capture_fps = basic_DEFAULT_FPS,
       basic_quality = basic_DEFAULT_QUALITY, basic_screen_monitor = basic_DEFAULT_MONITOR,
       basic_frames_sent = 0, basic_total_bytes_sent = 0 \<rparr>"

definition basic_process_command ::
    "sock \<Rightarrow> string \<Rightarrow> ScreenCaptureServer \<Rightarrow> sock \<times> ScreenCaptureServer" where
  "basic_process_command client_socket command self =
     (if command = ''PING''
      then (case sock_send client_socket ''PONG'' of
              Inl e \<Rightarrow> (client_socket, self) | Inr s \<Rightarrow> (s, self))
      else if startswith command ''SET_FPS:'' then
        (case (case split_colon_1 command of Inl e \<Rightarrow> Inl e | Inr a \<Rightarrow> py_int a) of
           Inl e \<Rightarrow> (client_socket, self)
         | Inr fps \<Rightarrow>
             (let self1 = self\<lparr> basic_capture_fps := max 1 (min 30 fps) \<rparr>
              in case sock_send client_socket
                        (utf8_encode (''FPS_SET:'' @ str_int (basic_capture_fps self1))) of
                   Inl e \<Rightarrow> (client_socket, self1) | Inr s \<Rightarrow> (s, self1)))
      else if startswith command ''SET_QUALITY:'' then
        (case (case split_colon_1 command of Inl e \<Rightarrow> Inl e | Inr a \<Rightarrow> py_int a) of
           Inl e \<Rightarrow> (client_socket, self)
         | Inr q \<Rightarrow>
             (let self1 = self\<lparr> basic_quality := max 10 (min 100 q) \<rparr>
              in case sock_send client_socket
                        (utf8_encode (''QUALITY_SET:'' @ str_int (basic_quality self1))) of
                   Inl e \<Rightarrow> (client_socket, self1) | Inr s \<Rightarrow> (s, self1)))
      else (client_socket, self))"

definition basic_handle_fps :: "string \<Rightarrow> ScreenCaptureServer \<Rightarrow> ScreenCaptureServer" where
  \<comment> \<open>the branch \<^verbatim>\<open>fps\<close> of the older console\<close>
  "basic_handle_fps line self =
     (case py_int line of
        Inl e \<Rightarrow> self
      | Inr fps \<Rightarrow> self\<lparr> basic_capture_fps := max 1 (min 30 fps) \<rparr>)"

section \<open>The viewer's receiving loop (main.py, main1.py)\<close>

definition find_bar :: "string \<Rightarrow> nat" where
  \<comment> \<open>\<^verbatim>\<open>buffer.find(b'|')\<close> on a buffer that holds the byte\<close>
  "find_bar buffer = length (takeWhile (\<lambda>b. b \<noteq> CHR ''|'') buffer)"

text \<open>The inner loop of \<^verbatim>\<open>receive_data\<close>, run on the bytes received so far. It
  takes the text before the first bar as a length; a text that is no integer is
  skipped with its bar. When the buffer holds the announced number of bytes after the
  bar, they are decoded and handed on as one message, and the loop goes on with what
  follows them; otherwise the loop waits for more data. The result is the messages
  handed on, the bytes left in the buffer and the exception that ended the loop, if
  one did. Nothing bounds the number of iterations (a negative length can leave the
  buffer as it is), so the result is \<open>None\<close> where the loop does not end.\<close>

partial_function (option) drain_buffer ::
    "string \<Rightarrow> string list \<Rightarrow> (string list \<times> string \<times> error option) option" where
  "drain_buffer buffer messages =
     (if CHR ''|'' \<notin> set buffer then Some (messages, buffer, None)
      else
        (case (case utf8_decode (take (find_bar buffer) buffer) of
                 Inl e \<Rightarrow> Inl e
               | Inr size_str \<Rightarrow> py_int size_str) of
           Inl e \<Rightarrow>
             if e = NotModelled then Some (messages, buffer, Some NotModelled)
             else drain_buffer (drop (find_bar buffer + 1) buffer) messages
         | Inr n \<Rightarrow>
             if int (find_bar buffer) + 1 + n \<le> int (length buffer)
             then (case utf8_decode
                          (py_slice buffer (int (find_bar buffer) + 1)
                                           (int (find_bar buffer) + 1 + n)) of
                     Inl e \<Rightarrow> Some (messages, buffer, Some e)
                   | Inr message \<Rightarrow>
                       drain_buffer (py_slice_from buffer (int (find_bar buffer) + 1 + n))
                                    (messages @ [message]))
             else Some (messages, buffer, None)))"

declare drain_buffer.simps [code]

definition process_frame_packet :: "(string \<Rightarrow> rat) \<Rightarrow> string \<Rightarrow> error + jdict" where
  \<comment> \<open>the first statement of \<^verbatim>\<open>process_frame\<close>: \<^verbatim>\<open>packet = json.loads(message)\<close>\<close>
  "process_frame_packet float_of message = json_loads float_of message"

section \<open>Sample states\<close>

text \<open>Concrete connections, servers and inputs on which the theorems below are
  evaluated.\<close>

definition open_connection :: client_info where
  "open_connection =
     \<lparr> ci_socket = \<lparr> sent = [], broken = False, closed = False \<rparr>,
       ci_address = (''192.168.1.20'', 50000), ci_connected_at = 0,
       ci_motion_enabled = True, ci_alerts_enabled = True \<rparr>"

definition lost_connection :: client_info where
  "lost_connection =
     open_connection\<lparr> ci_socket := \<lparr> sent = [], broken = True, closed = False \<rparr> \<rparr>"

definition fresh_server :: SecurityRadarServer where
  "fresh_server = SecurityRadarServer_init ''0.0.0.0'' 5555 (\<lambda>c. open_connection)"

definition busy_server :: SecurityRadarServer where
  "busy_server =
     fresh_server
       \<lparr> threat_level := 2,
         motion_detector := MotionDetector_init\<lparr> detection_history := [True, True, False] \<rparr> \<rparr>"

definition plain_repr :: "rat \<Rightarrow> string" where
  \<comment> \<open>a float printer for runs in which no client is connected\<close>
  "plain_repr x = ''0.0''"

definition two_clients :: SecurityRadarServer where
  \<comment> \<open>connection 0 has lost its peer, connection 1 is healthy\<close>
  "two_clients =
     fresh_server\<lparr> clients := [0, 1],
                   conns := (\<lambda>c. if c = 0 then lost_connection else open_connection) \<rparr>"

definition sample_packet :: jdict where
  "sample_packet =
     [(''type'', JStr ''screen_frame''), (''timestamp'', JFloat (3 / 2)),
      (''width'', JInt 1280), (''height'', JInt 720), (''data'', JStr ''/9j/4AAQ''),
      (''motion_detected'', JBool True), (''motion_percentage'', JFloat (1249 / 100)),
      (''threat_level'', JInt 2), (''zone'', JStr ''Unknown'')]"

definition dark_server :: SecurityRadarServer where
  \<comment> \<open>a running server whose detector holds a black frame of one pixel\<close>
  "dark_server =
     fresh_server\<lparr> running := True,
                   motion_detector := MotionDetector_init\<lparr> previous_frame := Some [[0]] \<rparr> \<rparr>"

definition white_tick :: "gray tick_input" where
  \<comment> \<open>the next capture is a white frame of one pixel, already grayscale\<close>
  "white_tick =
     \<lparr> tick_img = [[255]], tick_width = 1, tick_height = 1, tick_base64 = ''/9j/4AAQ'',
       tick_nbytes = 6, tick_time = 3 / 2 \<rparr>"

definition sample_repr :: "rat \<Rightarrow> string" where
  \<comment> \<open>how Python prints the two floats of \<open>sample_packet\<close>\<close>
  "sample_repr x = (if x = 3 / 2 then ''1.5'' else ''12.49'')"

definition sample_float :: "string \<Rightarrow> rat" where
  \<comment> \<open>how Python reads them back\<close>
  "sample_float s = (if s = ''1.5'' then 3 / 2 else 1249 / 100)"

section \<open>Zones: the alert cooldown\<close>

lemma should_alert_result:
  "fst (should_alert z t) = (ALERT_COOLDOWN < t - last_alert_time z)"
  by (simp add: should_alert_def)

lemma should_alert_state:
  "snd (should_alert z t) =
     (if ALERT_COOLDOWN < t - last_alert_time z then z\<lparr> last_alert_time := t \<rparr> else z)"
  by (simp add: should_alert_def)

text \<open>Claim C9. A call of \<open>should_alert\<close> answers true, and moves the zone's timer,
  only if at least \<open>ALERT_COOLDOWN\<close> seconds lie between the zone's last alert and the
  call; a call that answers false leaves the zone as it was. Of two successive calls on
  one zone whose clock readings are at most \<open>ALERT_COOLDOWN\<close> apart, at most one answers
  true.\<close>

theorem should_alert_debounce:
  assumes "should_alert z t1 = (r1, z1)"
    and "should_alert z1 t2 = (r2, z2)"
    and "\<bar>t2 - t1\<bar> \<le> ALERT_COOLDOWN"
  shows "(r1 \<longrightarrow> ALERT_COOLDOWN \<le> t1 - last_alert_time z \<and> last_alert_time z1 = t1)
       \<and> (\<not> r1 \<longrightarrow> z1 = z)
       \<and> \<not> (r1 \<and> r2)"
proof -
  have first: "r1 = (ALERT_COOLDOWN < t1 - last_alert_time z)"
    using assms(1) should_alert_result [of z t1] by simp
  have state: "z1 = (if r1 then z\<lparr> last_alert_time := t1 \<rparr> else z)"
    using assms(1) should_alert_state [of z t1] first by simp
  have second: "r2 = (ALERT_COOLDOWN < t2 - last_alert_time z1)"
    using assms(2) should_alert_result [of z1 t2] by simp
  have "\<not> r2" if "r1"
  proof -
    from that state have "last_alert_time z1 = t1" by simp
    with second assms(3) show ?thesis by simp
  qed
  with first state show ?thesis by auto
qed

theorem should_alert_debounce_witness:
  "should_alert (MonitoringZone_init 1 ''Entry Point'' 0 0 640 360 5) 100
     = (True, (MonitoringZone_init 1 ''Entry Point'' 0 0 640 360 5)\<lparr> last_alert_time := 100 \<rparr>)
   \<and> should_alert ((MonitoringZone_init 1 ''Entry Point'' 0 0 640 360 5)\<lparr> last_alert_time := 100 \<rparr>) 102
     = (False, (MonitoringZone_init 1 ''Entry Point'' 0 0 640 360 5)\<lparr> last_alert_time := 100 \<rparr>)
   \<and> \<bar>102 - 100 :: rat\<bar> \<le> ALERT_COOLDOWN
   \<and> \<not> (True \<and> False)"
proof -
  let ?z = "MonitoringZone_init 1 ''Entry Point'' 0 0 640 360 5"
  have a: "should_alert ?z 100 = (True, ?z\<lparr> last_alert_time := 100 \<rparr>)"
    by (simp add: should_alert_def MonitoringZone_init_def ALERT_COOLDOWN_def)
  have b: "should_alert (?z\<lparr> last_alert_time := 100 \<rparr>) 102
             = (False, ?z\<lparr> last_alert_time := 100 \<rparr>)"
    by (simp add: should_alert_def MonitoringZone_init_def ALERT_COOLDOWN_def)
  have c: "\<bar>102 - 100 :: rat\<bar> \<le> ALERT_COOLDOWN"
    by (simp add: ALERT_COOLDOWN_def)
  from should_alert_debounce [OF a b c] a b c show ?thesis by simp
qed

text \<open>Claim C10. The answer of \<open>should_alert\<close> is a function of the clock reading and
  of the zone's \<open>last_alert_time\<close> alone: it is true, and the timer becomes the clock
  reading, whenever more than \<open>ALERT_COOLDOWN\<close> seconds have passed since the last alert,
  whatever the zone's motion flag and enabled flag are; two zones that agree on
  \<open>last_alert_time\<close> get the same answer and the same new timer at the same reading.\<close>

theorem should_alert_only_time:
  "(ALERT_COOLDOWN < t - last_alert_time z \<longrightarrow>
      should_alert (z\<lparr> zone_motion_detected := m, zone_enabled := e \<rparr>) t
        = (True, z\<lparr> zone_motion_detected := m, zone_enabled := e, last_alert_time := t \<rparr>))
   \<and> (last_alert_time z = last_alert_time z' \<longrightarrow>
        fst (should_alert z t) = fst (should_alert z' t)
      \<and> last_alert_time (snd (should_alert z t)) = last_alert_time (snd (should_alert z' t)))"
  by (simp add: should_alert_def)

theorem should_alert_only_time_witness:
  "ALERT_COOLDOWN < 10 - last_alert_time (MonitoringZone_init 4 ''Parking'' 640 360 640 360 3)
   \<and> should_alert ((MonitoringZone_init 4 ''Parking'' 640 360 640 360 3)
        \<lparr> zone_motion_detected := False, zone_enabled := False \<rparr>) 10
      = (True, (MonitoringZone_init 4 ''Parking'' 640 360 640 360 3)
        \<lparr> zone_motion_detected := False, zone_enabled := False, last_alert_time := 10 \<rparr>)
   \<and> last_alert_time (MonitoringZone_init 4 ''Parking'' 640 360 640 360 3)
      = last_alert_time ((MonitoringZone_init 1 ''Entry Point'' 0 0 640 360 5)
          \<lparr> zone_motion_detected := True \<rparr>)
   \<and> fst (should_alert (MonitoringZone_init 4 ''Parking'' 640 360 640 360 3) 10)
      = fst (should_alert ((MonitoringZone_init 1 ''Entry Point'' 0 0 640 360 5)
          \<lparr> zone_motion_detected := True \<rparr>) 10)"
proof -
  let ?z = "MonitoringZone_init 4 ''Parking'' 640 360 640 360 3"
  let ?z' = "(MonitoringZone_init 1 ''Entry Point'' 0 0 640 360 5)\<lparr> zone_motion_detected := True \<rparr>"
  have h: "ALERT_COOLDOWN < 10 - last_alert_time ?z"
    by (simp add: MonitoringZone_init_def ALERT_COOLDOWN_def)
  have e: "last_alert_time ?z = last_alert_time ?z'"
    by (simp add: MonitoringZone_init_def)
  from should_alert_only_time [of 10 ?z False False ?z'] h e show ?thesis by simp
qed

section \<open>The motion detector and the threshold\<close>

lemma sum_list_difference_self: "sum_list (concat (difference g g)) = 0"
  by (induction g) (auto simp: difference_def zip_same_conv_map comp_def)

lemma stat_mean_difference_self:
  "stat_mean (difference g g) = Inl ZeroDivisionError \<or> stat_mean (difference g g) = Inr 0"
  by (simp add: stat_mean_def Let_def sum_list_difference_self)

lemma effective_threshold_pos:
  "s \<le> 10 \<Longrightarrow> 0 < MOTION_THRESHOLD * of_int (11 - s) / 10"
  by (simp add: MOTION_THRESHOLD_def)

lemma detect_motion_same_gray:
  assumes "md_enabled d" "md_sensitivity d \<le> 10" "convert_L f = Some g" "previous_frame d = Some g"
  shows "fst (detect_motion convert_L d f) = (False, 0)"
  using assms stat_mean_difference_self [of g] effective_threshold_pos [of "md_sensitivity d"]
  by (auto simp: detect_motion_def Let_def)

lemma detect_motion_keeps:
  "md_enabled (snd (detect_motion convert_L d f)) = md_enabled d"
  "md_sensitivity (snd (detect_motion convert_L d f)) = md_sensitivity d"
  by (auto simp: detect_motion_def Let_def split: option.splits sum.splits)

lemma detect_motion_previous:
  "md_enabled d \<Longrightarrow> convert_L f = Some g \<Longrightarrow>
   previous_frame (snd (detect_motion convert_L d f)) = Some g
   \<or> snd (detect_motion convert_L d f) = d \<and> fst (detect_motion convert_L d f) = (False, 0)"
  by (auto simp: detect_motion_def Let_def split: option.splits sum.splits)

text \<open>Claim C6. On an enabled detector whose sensitivity lies in 1..10, detecting a
  frame and then detecting the same frame again reports no motion and a percentage of
  exactly zero, whatever the detector held before and whether or not the first call
  ended in its exception handler.\<close>

theorem detect_motion_identical_frames:
  assumes "md_enabled d" and "1 \<le> md_sensitivity d" and "md_sensitivity d \<le> 10"
  shows "fst (detect_motion convert_L (snd (detect_motion convert_L d f)) f) = (False, 0)"
proof (cases "convert_L f")
  case None
  with assms show ?thesis by (simp add: detect_motion_def)
next
  case (Some g)
  let ?d1 = "snd (detect_motion convert_L d f)"
  from detect_motion_previous [of d convert_L f g] assms(1) Some
  consider "previous_frame ?d1 = Some g"
    | "?d1 = d" "fst (detect_motion convert_L d f) = (False, 0)" by blast
  then show ?thesis
  proof cases
    case 1
    show ?thesis
      using detect_motion_same_gray [of ?d1 convert_L f g] Some 1 assms
      by (simp add: detect_motion_keeps)
  next
    case 2
    then show ?thesis by simp
  qed
qed

theorem detect_motion_identical_frames_witness:
  "md_enabled (MotionDetector_init\<lparr> previous_frame := Some [[200, 0], [0, 7]] \<rparr>)
   \<and> 1 \<le> md_sensitivity (MotionDetector_init\<lparr> previous_frame := Some [[200, 0], [0, 7]] \<rparr>)
   \<and> md_sensitivity (MotionDetector_init\<lparr> previous_frame := Some [[200, 0], [0, 7]] \<rparr>) \<le> 10
   \<and> fst (detect_motion Some
              (snd (detect_motion Some
                      (MotionDetector_init\<lparr> previous_frame := Some [[200, 0], [0, 7]] \<rparr>)
                      [[10, 20], [30, 40]]))
              [[10, 20], [30, 40]]) = (False, 0)"
proof -
  let ?d = "MotionDetector_init\<lparr> previous_frame := Some [[200, 0], [0, 7]] \<rparr>"
  have h: "md_enabled ?d" "1 \<le> md_sensitivity ?d" "md_sensitivity ?d \<le> 10"
    by (simp_all add: MotionDetector_init_def MOTION_SENSITIVITY_def)
  from detect_motion_identical_frames [OF h, of Some "[[10, 20], [30, 40]]"] h
  show ?thesis by simp
qed

text \<open>Claim C7. The verdict of \<open>check_motion\<close> on a zone and the verdict of
  \<open>detect_motion\<close> on the detector compare the percentage with
  \<open>MOTION_THRESHOLD * (11 - sensitivity) / 10\<close>, where \<open>MOTION_THRESHOLD\<close> is 5. The
  threshold is antitone in the sensitivity: for \<open>s1 < s2\<close> the threshold at \<open>s1\<close> is at
  least the threshold at \<open>s2\<close>, so a percentage that triggers a zone at \<open>s1\<close> triggers
  it at \<open>s2\<close>.\<close>

theorem threshold_formula_antitone:
  "fst (check_motion z p) = (effective_threshold (zone_sensitivity z) < p)
   \<and> (md_enabled d \<and> convert_L f = Some g \<and> previous_frame d = Some prev
        \<and> stat_mean (difference g prev) = Inr m \<longrightarrow>
      fst (detect_motion convert_L d f)
        = (effective_threshold (md_sensitivity d) < m / 255 * 100, m / 255 * 100))
   \<and> effective_threshold s = 5 * of_int (11 - s) / 10
   \<and> (s1 < s2 \<longrightarrow> effective_threshold s2 \<le> effective_threshold s1)
   \<and> (s1 < s2 \<and> fst (check_motion (z\<lparr> zone_sensitivity := s1 \<rparr>) p) \<longrightarrow>
        fst (check_motion (z\<lparr> zone_sensitivity := s2 \<rparr>) p))"
  by (auto simp: check_motion_def detect_motion_def effective_threshold_def Let_def
        MOTION_THRESHOLD_def)


theorem threshold_formula_antitone_witness:
  "md_enabled (MotionDetector_init\<lparr> previous_frame := Some [[0]] \<rparr>)
   \<and> Some [[255]] = Some [[255 :: nat]]
   \<and> previous_frame (MotionDetector_init\<lparr> previous_frame := Some [[0]] \<rparr>) = Some [[0]]
   \<and> stat_mean (difference [[255]] [[0]]) = Inr 255
   \<and> fst (detect_motion Some (MotionDetector_init\<lparr> previous_frame := Some [[0]] \<rparr>) [[255]])
       = (True, 100)
   \<and> (3 :: int) < 7
   \<and> effective_threshold 7 \<le> effective_threshold 3
   \<and> fst (check_motion ((MonitoringZone_init 1 ''Entry Point'' 0 0 640 360 5)
              \<lparr> zone_sensitivity := 3 \<rparr>) (9 / 2))
   \<and> fst (check_motion ((MonitoringZone_init 1 ''Entry Point'' 0 0 640 360 5)
              \<lparr> zone_sensitivity := 7 \<rparr>) (9 / 2))"
proof -
  let ?d = "MotionDetector_init\<lparr> previous_frame := Some [[0]] \<rparr>"
  let ?z = "MonitoringZone_init 1 ''Entry Point'' 0 0 640 360 5"
  have h1: "md_enabled ?d \<and> Some [[255]] = Some [[255 :: nat]]
            \<and> previous_frame ?d = Some [[0]] \<and> stat_mean (difference [[255]] [[0]]) = Inr 255"
    by (simp add: MotionDetector_init_def stat_mean_def difference_def)
  have h2: "(3 :: int) < 7 \<and> fst (check_motion (?z\<lparr> zone_sensitivity := 3 \<rparr>) (9 / 2))"
    by (simp add: check_motion_def MOTION_THRESHOLD_def)
  have thr: "effective_threshold (md_sensitivity ?d) < 255 / 255 * 100"
    by (simp add: effective_threshold_def MotionDetector_init_def MOTION_THRESHOLD_def
          MOTION_SENSITIVITY_def)
  from threshold_formula_antitone [of ?z "9 / 2" ?d Some "[[255]]" "[[255]]" "[[0]]" 255 3 3 7]
    h1 h2 thr
  show ?thesis by simp
qed
section \<open>The analytics loop\<close>

lemma analytics_step_level:
  "threat_level (analytics_step self)
     = spec_escalate (detection_history (motion_detector self))
         (spec_decay (md_motion_detected (motion_detector self)) (threat_level self))"
  by (simp add: analytics_step_def spec_escalate_def spec_decay_def spec_fraction_def Let_def)

lemma analytics_step_frame:
  "analytics_step self = self\<lparr> threat_level := threat_level (analytics_step self) \<rparr>"
  by (simp add: analytics_step_def Let_def)

text \<open>Claim C3. One run of the analytics step changes nothing but the threat level,
  which becomes the escalation of the decay of the old level: the decay takes one off
  when the detector's motion flag is false and the level is above zero, the escalation
  then adds one, capped at three, when more than half of the detector's history is
  true. A level in {0,1,2,3} stays there after the decay and after the whole step, and
  when both rules fire the level is first lowered by exactly one and then raised
  again.\<close>

theorem analytics_step_threat_level:
  "threat_level (analytics_step self)
     = spec_escalate (detection_history (motion_detector self))
         (spec_decay (md_motion_detected (motion_detector self)) (threat_level self))
   \<and> analytics_step self = self\<lparr> threat_level := threat_level (analytics_step self) \<rparr>
   \<and> (threat_level self \<in> {0, 1, 2, 3} \<longrightarrow>
        spec_decay (md_motion_detected (motion_detector self)) (threat_level self) \<in> {0, 1, 2, 3}
        \<and> threat_level (analytics_step self) \<in> {0, 1, 2, 3})
   \<and> (\<not> md_motion_detected (motion_detector self) \<and> 0 < threat_level self \<and> threat_level self \<le> 3
        \<and> 1 / 2 < spec_fraction (detection_history (motion_detector self)) \<longrightarrow>
        spec_decay (md_motion_detected (motion_detector self)) (threat_level self)
          = threat_level self - 1
        \<and> threat_level (analytics_step self) = threat_level self)"
proof -
  have "threat_level self \<in> {0, 1, 2, 3} \<Longrightarrow>
        spec_decay (md_motion_detected (motion_detector self)) (threat_level self) \<in> {0, 1, 2, 3}"
    by (auto simp: spec_decay_def)
  moreover have "\<And>h l. l \<in> {0, 1, 2, 3} \<Longrightarrow> spec_escalate h l \<in> {0, 1, 2, 3 :: int}"
    by (auto simp: spec_escalate_def)
  moreover have "\<not> md_motion_detected (motion_detector self) \<Longrightarrow> 0 < threat_level self \<Longrightarrow>
      threat_level self \<le> 3 \<Longrightarrow> 1 / 2 < spec_fraction (detection_history (motion_detector self)) \<Longrightarrow>
      spec_escalate (detection_history (motion_detector self))
         (spec_decay (md_motion_detected (motion_detector self)) (threat_level self))
        = threat_level self"
    by (simp add: spec_escalate_def spec_decay_def)
  ultimately show ?thesis
    using analytics_step_level [of self] analytics_step_frame [of self]
    by (simp add: spec_decay_def)
qed

theorem analytics_step_threat_level_witness:
  "threat_level busy_server \<in> {0, 1, 2, 3}
   \<and> \<not> md_motion_detected (motion_detector busy_server)
   \<and> 0 < threat_level busy_server \<and> threat_level busy_server \<le> 3
   \<and> 1 / 2 < spec_fraction (detection_history (motion_detector busy_server))
   \<and> spec_decay (md_motion_detected (motion_detector busy_server)) (threat_level busy_server) = 1
   \<and> threat_level (analytics_step busy_server) = 2"
proof -
  have l: "threat_level busy_server = 2"
    by (simp add: busy_server_def)
  have h: "\<not> md_motion_detected (motion_detector busy_server)"
    "0 < threat_level busy_server" "threat_level busy_server \<le> 3"
    "1 / 2 < spec_fraction (detection_history (motion_detector busy_server))"
    by (simp_all add: busy_server_def MotionDetector_init_def spec_fraction_def)
  have "spec_decay (md_motion_detected (motion_detector busy_server)) (threat_level busy_server)
          = threat_level busy_server - 1
        \<and> threat_level (analytics_step busy_server) = threat_level busy_server"
    using analytics_step_threat_level [of busy_server] h by blast
  with l h show ?thesis by simp
qed

section \<open>Commands\<close>


lemma client_send_fields:
  "client_send c data self = Inr s \<Longrightarrow>
     capture_fps s = capture_fps self \<and> quality s = quality self \<and> clients s = clients self"
  by (auto simp: client_send_def split: sum.splits)

lemma or_else_send_fps [simp]:
  "capture_fps (or_else self (client_send c data self)) = capture_fps self"
  by (auto simp: or_else_def dest: client_send_fields split: sum.splits)

lemma clamp_fps: "1 \<le> max 1 (min 30 (n :: int)) \<and> max 1 (min 30 n) \<le> 30"
  by simp

lemma process_command_fps_cases:
  "capture_fps (process_command now c command self) = capture_fps self
   \<or> (\<exists>n. capture_fps (process_command now c command self) = max 1 (min 30 n))"
proof (cases "case split_colon_1 command of Inl e \<Rightarrow> Inl e | Inr a \<Rightarrow> py_int a")
  case (Inl e)
  then show ?thesis
    by (cases "split_colon_1 command") (simp_all add: process_command_def Let_def)
next
  case (Inr n)
  then show ?thesis
    by (cases "split_colon_1 command") (auto simp add: process_command_def Let_def)
qed

lemma process_command_fps_range:
  assumes "1 \<le> capture_fps self \<and> capture_fps self \<le> 30"
  shows "1 \<le> capture_fps (process_command now c command self)
         \<and> capture_fps (process_command now c command self) \<le> 30"
  using assms process_command_fps_cases [of now c command self] by auto

lemma process_command_set_fps:
  assumes "startswith command ''SET_FPS:''"
    and "split_colon_1 command = Inr a" and "py_int a = Inr n"
  shows "capture_fps (process_command now c command self) = max 1 (min 30 n)"
proof -
  from assms(1) have "command \<noteq> ''PING''" by (auto simp: startswith_def)
  with assms show ?thesis by (simp add: process_command_def Let_def)
qed

lemma handle_command_fps_range:
  assumes "1 \<le> capture_fps self \<and> capture_fps self \<le> 30"
  shows "1 \<le> capture_fps (snd (handle_command cmd line self))
         \<and> capture_fps (snd (handle_command cmd line self)) \<le> 30"
  using assms
  by (simp add: handle_command_def Let_def split: sum.splits)

lemma SecurityRadarServer_init_fps: "capture_fps (SecurityRadarServer_init h p objs) = 10"
  by (simp add: SecurityRadarServer_init_def initialize_default_zones_def DEFAULT_FPS_def)

lemma set_fps_100:
  "capture_fps (process_command 0 0 ''SET_FPS:100'' fresh_server) = 30
   \<and> sent (ci_socket (conns (process_command 0 0 ''SET_FPS:100'' fresh_server) 0)) = [''FPS_SET:30'']"
  by code_simp

lemma basic_process_command_fps_cases:
  "basic_capture_fps (snd (basic_process_command sk command self)) = basic_capture_fps self
   \<or> (\<exists>n. basic_capture_fps (snd (basic_process_command sk command self)) = max 1 (min 30 n))"
proof (cases "case split_colon_1 command of Inl e \<Rightarrow> Inl e | Inr a \<Rightarrow> py_int a")
  case (Inl e)
  then show ?thesis
    by (cases "split_colon_1 command")
      (simp_all add: basic_process_command_def Let_def split: sum.splits)
next
  case (Inr n)
  then show ?thesis
    by (cases "split_colon_1 command")
      (auto simp add: basic_process_command_def Let_def split: sum.splits)
qed

lemma basic_process_command_fps_range:
  assumes "1 \<le> basic_capture_fps self \<and> basic_capture_fps self \<le> 30"
  shows "1 \<le> basic_capture_fps (snd (basic_process_command sk command self))
         \<and> basic_capture_fps (snd (basic_process_command sk command self)) \<le> 30"
  using assms basic_process_command_fps_cases [of sk command self] by auto

lemma basic_handle_fps_range:
  assumes "1 \<le> basic_capture_fps self \<and> basic_capture_fps self \<le> 30"
  shows "1 \<le> basic_capture_fps (basic_handle_fps line self)
         \<and> basic_capture_fps (basic_handle_fps line self) \<le> 30"
  using assms by (simp add: basic_handle_fps_def split: sum.splits)

text \<open>Claim C2. The newer server starts at 10 frames per second and each of its
  commands keeps the rate in 1..30 (the lemmas above); the older server clamps in the
  same way but starts at its \<^verbatim>\<open>DEFAULT_FPS\<close> of 60, outside the range.\<close>

theorem ScreenCaptureServer_initial_fps:
  "basic_capture_fps ScreenCaptureServer_init = 60
   \<and> \<not> (1 \<le> basic_capture_fps ScreenCaptureServer_init
        \<and> basic_capture_fps ScreenCaptureServer_init \<le> 30)"
  by (simp add: ScreenCaptureServer_init_def basic_DEFAULT_FPS_def)




section \<open>The broadcast\<close>

lemma send_raises_isl: "send_raises objs c = isl (sock_send (ci_socket (objs c)) m)"
  by (simp add: send_raises_def sock_send_def)

lemma send_raises_after_send:
  "send_raises (objs(c := (objs c)\<lparr> ci_socket := (ci_socket (objs c))\<lparr> sent := xs \<rparr> \<rparr>))
     = send_raises objs"
  by (auto simp: send_raises_def fun_eq_iff)

lemma send_loop_result:
  "send_loop m cs objs disc =
     ((\<lambda>c. if send_raises objs c then objs c
           else (objs c)\<lparr> ci_socket := (ci_socket (objs c))
                   \<lparr> sent := sent (ci_socket (objs c)) @ replicate (count_list cs c) m \<rparr> \<rparr>),
      disc @ filter (send_raises objs) cs)"
proof (induction cs arbitrary: objs disc)
  case Nil
  show ?case by (auto simp: fun_eq_iff)
next
  case (Cons a cs)
  show ?case
  proof (cases "send_raises objs a")
    case True
    then have "sock_send (ci_socket (objs a)) m = Inl OSError"
      by (auto simp: send_raises_def sock_send_def)
    with True show ?thesis by (auto simp: Cons.IH fun_eq_iff)
  next
    case False
    let ?objs' = "objs(a := (objs a)\<lparr> ci_socket := (ci_socket (objs a))
                     \<lparr> sent := sent (ci_socket (objs a)) @ [m] \<rparr> \<rparr>)"
    have r: "send_raises ?objs' = send_raises objs"
      by (rule send_raises_after_send)
    from False have s: "sock_send (ci_socket (objs a)) m
        = Inr ((ci_socket (objs a))\<lparr> sent := sent (ci_socket (objs a)) @ [m] \<rparr>)"
      by (auto simp: send_raises_def sock_send_def)
    have "send_loop m (a # cs) objs disc = send_loop m cs ?objs' disc"
      by (simp add: s)
    also have "\<dots> =
       ((\<lambda>c. if send_raises ?objs' c then ?objs' c
             else (?objs' c)\<lparr> ci_socket := (ci_socket (?objs' c))
                   \<lparr> sent := sent (ci_socket (?objs' c)) @ replicate (count_list cs c) m \<rparr> \<rparr>),
        disc @ filter (send_raises ?objs') cs)"
      by (rule Cons.IH)
    also have "\<dots> =
       ((\<lambda>c. if send_raises objs c then objs c
             else (objs c)\<lparr> ci_socket := (ci_socket (objs c))
                   \<lparr> sent := sent (ci_socket (objs c)) @ replicate (count_list (a # cs) c) m \<rparr> \<rparr>),
        disc @ filter (send_raises objs) (a # cs))"
      unfolding r using False by (auto simp: fun_eq_iff)
    finally show ?thesis .
  qed
qed

lemma clients_remove_client: "clients (remove_client d self) = remove1 d (clients self)"
  by (simp add: remove_client_def remove1_idem)

lemma conns_remove_client: "c \<noteq> d \<Longrightarrow> conns (remove_client d self) c = conns self c"
  by (simp add: remove_client_def)

lemma clients_fold_remove_client:
  "clients (fold remove_client ds self) = fold remove1 ds (clients self)"
  by (induction ds arbitrary: self) (simp_all add: clients_remove_client)

lemma conns_fold_remove_client:
  "c \<notin> set ds \<Longrightarrow> conns (fold remove_client ds self) c = conns self c"
  by (induction ds arbitrary: self) (simp_all add: conns_remove_client)

lemma fold_remove1_filter:
  "fold remove1 (filter P xs) (filter (\<lambda>x. \<not> P x) pre @ xs)
     = filter (\<lambda>x. \<not> P x) pre @ filter (\<lambda>x. \<not> P x) xs"
proof (induction xs arbitrary: pre)
  case Nil
  show ?case by simp
next
  case (Cons x xs)
  show ?case
  proof (cases "P x")
    case True
    then have "remove1 x (filter (\<lambda>x. \<not> P x) pre @ x # xs) = filter (\<lambda>x. \<not> P x) pre @ xs"
      by (simp add: remove1_append)
    with True Cons.IH [of pre] show ?thesis by simp
  next
    case False
    with Cons.IH [of "pre @ [x]"] show ?thesis by simp
  qed
qed

lemma clients_broadcast_packet:
  "clients (broadcast_packet fr packet self)
     = filter (\<lambda>c. \<not> send_raises (conns self) c) (clients self)"
  using fold_remove1_filter [of "send_raises (conns self)" "clients self" "[]"]
  by (simp add: broadcast_packet_def send_loop_result clients_fold_remove_client)

lemma conns_broadcast_packet:
  assumes "\<not> send_raises (conns self) c"
  shows "conns (broadcast_packet fr packet self) c
     = (conns self c)\<lparr> ci_socket := (ci_socket (conns self c))
          \<lparr> sent := sent (ci_socket (conns self c))
                @ replicate (count_list (clients self) c) (wire_message fr packet) \<rparr> \<rparr>"
  using assms
  by (simp add: broadcast_packet_def send_loop_result conns_fold_remove_client)

text \<open>Claim C5. In one broadcast, a registered client whose send raises is no longer
  in the registry afterwards, and a registered client whose send does not raise is
  still registered and has the whole wire message appended to what its socket was
  sent, once for each time it stands in the registry, whatever the other clients'
  sends did. Removing a client that is not in the registry changes nothing.\<close>

theorem broadcast_isolates_failures:
  assumes "c \<in> set (clients self)"
  shows "(isl (sock_send (ci_socket (conns self c)) (wire_message fr packet)) \<longrightarrow>
            c \<notin> set (clients (broadcast_packet fr packet self)))
       \<and> (\<not> isl (sock_send (ci_socket (conns self c)) (wire_message fr packet)) \<longrightarrow>
            c \<in> set (clients (broadcast_packet fr packet self))
          \<and> 0 < count_list (clients self) c
          \<and> sent (ci_socket (conns (broadcast_packet fr packet self) c))
              = sent (ci_socket (conns self c))
                @ replicate (count_list (clients self) c) (wire_message fr packet))
       \<and> (d \<notin> set (clients self) \<longrightarrow> remove_client d self = self)"
  using assms send_raises_isl [of "conns self" c "wire_message fr packet"]
  by (auto simp: clients_broadcast_packet conns_broadcast_packet remove_client_def
        count_list_0_iff simp flip: neq0_conv)

theorem broadcast_isolates_failures_witness:
  "0 \<in> set (clients two_clients)
   \<and> isl (sock_send (ci_socket (conns two_clients 0)) (wire_message plain_repr sample_packet))
   \<and> 0 \<notin> set (clients (broadcast_packet plain_repr sample_packet two_clients))
   \<and> 1 \<in> set (clients two_clients)
   \<and> \<not> isl (sock_send (ci_socket (conns two_clients 1)) (wire_message plain_repr sample_packet))
   \<and> 1 \<in> set (clients (broadcast_packet plain_repr sample_packet two_clients))
   \<and> sent (ci_socket (conns (broadcast_packet plain_repr sample_packet two_clients) 1))
       = [wire_message plain_repr sample_packet]"
proof -
  let ?m = "wire_message plain_repr sample_packet"
  have a: "0 \<in> set (clients two_clients)" "1 \<in> set (clients two_clients)"
    by (simp_all add: two_clients_def)
  have b: "isl (sock_send (ci_socket (conns two_clients 0)) ?m)"
    "\<not> isl (sock_send (ci_socket (conns two_clients 1)) ?m)"
    by (simp_all add: two_clients_def sock_send_def lost_connection_def open_connection_def)
  have c: "count_list (clients two_clients) 1 = 1" "sent (ci_socket (conns two_clients 1)) = []"
    by (simp_all add: two_clients_def open_connection_def)
  from broadcast_isolates_failures [OF a(1), of plain_repr sample_packet]
    broadcast_isolates_failures [OF a(2), of plain_repr sample_packet] a b c
  show ?thesis by simp
qed

section \<open>Zones and the capture loop\<close>

lemma zones_remove_client: "zones (remove_client d self) = zones self"
  by (simp add: remove_client_def)

lemma zones_fold_remove_client: "zones (fold remove_client ds self) = zones self"
  by (induction ds arbitrary: self) (simp_all add: zones_remove_client)

lemma zones_broadcast_packet: "zones (broadcast_packet fr packet self) = zones self"
  by (simp add: broadcast_packet_def zones_fold_remove_client split: prod.splits)

lemma zones_process_motion_event: "zones (process_motion_event p self) = zones self"
  by (simp add: process_motion_event_def)

lemma zones_capture_tick: "zones (snd (capture_tick cv fr inp self)) = zones self"
  by (simp add: capture_tick_def Let_def zones_broadcast_packet zones_process_motion_event
        split: prod.splits)

lemma get_active_zone_zones:
  "zones s = zones self \<Longrightarrow> get_active_zone s = get_active_zone self"
  by (simp add: get_active_zone_def)

lemma zone_field_capture_tick:
  "map_of (fst (capture_tick cv fr inp self)) ''zone'' = Some (JStr (get_active_zone self))"
  by (auto simp: capture_tick_def Let_def zones_process_motion_event
        intro!: get_active_zone_zones split: prod.splits)

lemma first_zone_none:
  "(\<forall>z \<in> set zs. \<not> zone_motion_detected z) \<Longrightarrow> first_zone_with_motion zs = ''Unknown''"
  by (induction zs) simp_all

lemma first_zone_some:
  "(\<forall>y \<in> set pre. \<not> zone_motion_detected y) \<Longrightarrow> zone_motion_detected z \<Longrightarrow>
     first_zone_with_motion (pre @ z # post) = zone_name z"
  by (induction pre) simp_all

lemma deque_append_length: "length d \<le> n \<Longrightarrow> length (deque_append n d v) \<le> n"
  by (simp add: deque_append_def Let_def)

lemma check_motion_effect:
  "check_motion z p
     = (MOTION_THRESHOLD * of_int (11 - zone_sensitivity z) / 10 < p,
        z\<lparr> zone_motion_detected := (MOTION_THRESHOLD * of_int (11 - zone_sensitivity z) / 10 < p),
           motion_history := deque_append 10 (motion_history z)
              (MOTION_THRESHOLD * of_int (11 - zone_sensitivity z) / 10 < p) \<rparr>)"
  by (simp add: check_motion_def Let_def)

lemma check_motion_history_bounded:
  "length (motion_history z) \<le> 10 \<Longrightarrow> length (motion_history (snd (check_motion z p))) \<le> 10"
  by (simp add: check_motion_def Let_def deque_append_length)

text \<open>The zones are written by the constructor alone: the analytics step, the
  commands of a client and the commands of the console leave them as they are, as an
  iteration of the capture loop does.\<close>

lemma zones_analytics_step: "zones (analytics_step self) = zones self"
  by (simp add: analytics_step_def Let_def)

lemma zones_client_send: "client_send c data self = Inr s \<Longrightarrow> zones s = zones self"
  by (auto simp: client_send_def split: sum.splits)

lemma zones_or_else_send: "zones (or_else self (client_send c data self)) = zones self"
  by (auto simp: or_else_def dest: zones_client_send split: sum.splits)

lemma zones_process_command: "zones (process_command now c command self) = zones self"
proof (cases "case split_colon_1 command of Inl e \<Rightarrow> Inl e | Inr a \<Rightarrow> py_int a")
  case (Inl e)
  then show ?thesis
    by (cases "split_colon_1 command")
      (simp_all add: process_command_def Let_def zones_or_else_send)
next
  case (Inr n)
  then show ?thesis
    by (cases "split_colon_1 command")
      (simp_all add: process_command_def Let_def zones_or_else_send)
qed

lemma zones_handle_command: "zones (snd (handle_command cmd line self)) = zones self"
  by (cases "py_int line") (simp_all add: handle_command_def Let_def)

text \<open>So the packet of an iteration on a server whose zones are still those of the
  constructor names no zone, whatever the frame shows.\<close>

lemma zone_field_after_init:
  assumes "zones self = zones (SecurityRadarServer_init h p objs)"
  shows "map_of (fst (capture_tick cv fr inp self)) ''zone'' = Some (JStr ''Unknown'')"
proof -
  have "get_active_zone self = ''Unknown''"
    by (simp add: get_active_zone_def assms SecurityRadarServer_init_def
          initialize_default_zones_def dict_set_def dict_values_def MonitoringZone_init_def)
  then show ?thesis by (simp add: zone_field_capture_tick)
qed

text \<open>Claim C1. The claim says that every capture tick updates each enabled zone's
  motion flag and history from the tick's percentage, compared with the zone's own
  threshold, and that the packet's \<open>zone\<close> field names the first flagged zone. The code
  reads the flags for the packet as the claim says (\<open>zone_field_capture_tick\<close>,
  \<open>first_zone_some\<close>, \<open>first_zone_none\<close>) but never calls \<open>check_motion\<close>. On a fresh
  server whose detector holds a black frame, a tick on a white frame measures 100
  percent; the first zone is enabled and \<open>check_motion\<close> would flag it at 100; after the
  tick the zone is what the constructor made it, its flag false and its history empty,
  and the packet's \<open>zone\<close> field is \<open>Unknown\<close> where the claim gives \<open>Entry Point\<close>.\<close>

theorem zones_not_updated_by_tick:
  "map_of (fst (capture_tick Some plain_repr white_tick dark_server)) ''motion_percentage''
     = Some (JFloat 100)
   \<and> map_of (zones dark_server) 1 = Some (MonitoringZone_init 1 ''Entry Point'' 0 0 640 360 5)
   \<and> zone_enabled (MonitoringZone_init 1 ''Entry Point'' 0 0 640 360 5)
   \<and> fst (check_motion (MonitoringZone_init 1 ''Entry Point'' 0 0 640 360 5) 100)
   \<and> zone_name (snd (check_motion (MonitoringZone_init 1 ''Entry Point'' 0 0 640 360 5) 100))
     = ''Entry Point''
   \<and> map_of (zones (snd (capture_tick Some plain_repr white_tick dark_server))) 1
     = Some (MonitoringZone_init 1 ''Entry Point'' 0 0 640 360 5)
   \<and> \<not> zone_motion_detected (MonitoringZone_init 1 ''Entry Point'' 0 0 640 360 5)
   \<and> motion_history (MonitoringZone_init 1 ''Entry Point'' 0 0 640 360 5) = []
   \<and> map_of (fst (capture_tick Some plain_repr white_tick dark_server)) ''zone''
     = Some (JStr ''Unknown'')"
  by code_simp

section \<open>Decimal numerals\<close>

lemma of_char_digit: "k < 10 \<Longrightarrow> (of_char (char_of (48 + k :: nat)) :: nat) = 48 + k"
  by (simp add: of_char_of)

lemma py_isdigit_digit: "k < 10 \<Longrightarrow> py_isdigit (char_of (48 + k :: nat))"
  by (simp add: py_isdigit_def of_char_digit)

lemma digit_value_digit: "k < 10 \<Longrightarrow> digit_value (char_of (48 + k :: nat)) = int k"
  by (simp add: digit_value_def of_char_digit)

lemma str_nat_nonempty: "str_nat n \<noteq> []"
  by (subst str_nat.simps) simp

lemma str_nat_digits: "list_all py_isdigit (str_nat n)"
proof (induction n rule: str_nat.induct)
  case (1 n)
  show ?case
  proof (cases "n < 10")
    case True
    then show ?thesis by (subst str_nat.simps) (simp add: py_isdigit_digit)
  next
    case False
    with 1 show ?thesis by (subst str_nat.simps) (simp add: py_isdigit_digit)
  qed
qed

lemma parse_digits_digits:
  "list_all py_isdigit ds \<Longrightarrow> parse_digits acc ds = Some (digits_value acc ds)"
  by (induction ds arbitrary: acc) (simp_all add: digits_value_def)

lemma digits_value_str_nat: "digits_value 0 (str_nat n) = int n"
proof (induction n rule: str_nat.induct)
  case (1 n)
  show ?case
  proof (cases "n < 10")
    case True
    then show ?thesis
      by (subst str_nat.simps) (simp add: digits_value_def digit_value_digit)
  next
    case False
    then have "digits_value 0 (str_nat (n div 10)) = int (n div 10)" by (rule 1)
    with False show ?thesis
      by (subst str_nat.simps) (simp add: digits_value_def digit_value_digit zdiv_int zmod_int)
  qed
qed

lemma parse_unsigned_digits:
  assumes "list_all py_isdigit s" and "s \<noteq> []"
  shows "parse_unsigned s = Inr (digits_value 0 s)"
proof -
  from assms obtain c cs where s: "s = c # cs" by (cases s) auto
  with assms have "parse_digits (digit_value c) cs = Some (digits_value (digit_value c) cs)"
    by (simp add: parse_digits_digits)
  with assms s show ?thesis by (simp add: parse_unsigned_def digits_value_def)
qed

lemma parse_unsigned_str_nat: "parse_unsigned (str_nat n) = Inr (int n)"
  by (simp add: parse_unsigned_digits str_nat_digits str_nat_nonempty digits_value_str_nat)

lemma digit_not_space: "py_isdigit c \<Longrightarrow> \<not> int_isspace c"
  by (auto simp: py_isdigit_def int_isspace_def)

lemma strip_with_id:
  assumes "s \<noteq> []" and "\<not> space (hd s)" and "\<not> space (last s)"
  shows "strip_with space s = s"
proof -
  from assms have "dropWhile space s = s"
    by (cases s) auto
  moreover from assms have "dropWhile space (rev s) = rev s"
    by (cases "rev s") (auto simp: last_rev hd_rev)
  ultimately show ?thesis by (simp add: strip_with_def)
qed

lemma str_nat_hd_digit: "py_isdigit (hd (str_nat n))"
  using str_nat_digits [of n] str_nat_nonempty [of n] by (cases "str_nat n") auto

lemma str_nat_last_digit: "py_isdigit (last (str_nat n))"
  using str_nat_digits [of n] str_nat_nonempty [of n]
  by (simp add: list_all_iff)

lemma py_int_str_int: "py_int (str_int i) = Inr i"
proof (cases "i < 0")
  case True
  have "strip_with int_isspace (CHR ''-'' # str_nat (nat (- i))) = CHR ''-'' # str_nat (nat (- i))"
    using str_nat_last_digit [of "nat (- i)"] str_nat_nonempty [of "nat (- i)"]
    by (intro strip_with_id) (auto simp: int_isspace_def dest: digit_not_space)
  with True show ?thesis
    by (simp add: py_int_def str_int_def parse_unsigned_str_nat)
next
  case False
  obtain c cs where s: "str_nat (nat i) = c # cs"
    using str_nat_nonempty [of "nat i"] by (cases "str_nat (nat i)") auto
  have d: "py_isdigit c" using str_nat_hd_digit [of "nat i"] s by simp
  then have c: "c \<noteq> CHR ''-''" "c \<noteq> CHR ''+''" by (auto simp: py_isdigit_def)
  have "strip_with int_isspace (str_nat (nat i)) = str_nat (nat i)"
    using str_nat_hd_digit [of "nat i"] str_nat_last_digit [of "nat i"] str_nat_nonempty [of "nat i"]
    by (intro strip_with_id) (auto dest: digit_not_space)
  with False s c parse_unsigned_str_nat [of "nat i"] show ?thesis
    by (simp add: py_int_def str_int_def)
qed

section \<open>ASCII text\<close>

lemma ascii_append [simp]: "ascii (a @ b) = (ascii a \<and> ascii b)"
  by (simp add: ascii_def)

lemma ascii_Cons [simp]: "ascii (c # s) = ((of_char c :: nat) < 128 \<and> ascii s)"
  by (simp add: ascii_def)

lemma ascii_Nil [simp]: "ascii []"
  by (simp add: ascii_def)

lemma utf8_encode_ascii: "ascii s \<Longrightarrow> utf8_encode s = s"
  by (induction s) (simp_all add: utf8_encode_def utf8_encode_char_def)

lemma utf8_decode_ascii: "ascii s \<Longrightarrow> utf8_decode s = Inr s"
  by (induction s) simp_all

lemma digits_ascii: "list_all py_isdigit s \<Longrightarrow> ascii s"
  by (induction s) (auto simp: py_isdigit_def)

lemma str_int_ascii: "ascii (str_int i)"
  by (simp add: str_int_def digits_ascii str_nat_digits)

section \<open>Framing\<close>

lemma digits_no_bar: "list_all py_isdigit s \<Longrightarrow> CHR ''|'' \<notin> set s"
  by (auto simp: list_all_iff py_isdigit_def)

lemma str_int_nat: "str_int (int n) = str_nat n"
  by (simp add: str_int_def)

lemma find_bar_prefix:
  "CHR ''|'' \<notin> set l \<Longrightarrow> find_bar (l @ CHR ''|'' # rest) = length l"
  by (induction l) (auto simp: find_bar_def)

lemma drain_buffer_no_bar:
  "CHR ''|'' \<notin> set buffer \<Longrightarrow> drain_buffer buffer messages = Some (messages, buffer, None)"
  by (subst drain_buffer.simps) simp

lemma drain_buffer_frame:
  assumes "ascii doc"
  shows "drain_buffer (str_int (int (length doc)) @ ''|'' @ doc) []
           = Some ([doc], [], None)"
proof -
  let ?l = "str_nat (length doc)"
  let ?buffer = "?l @ CHR ''|'' # doc"
  have nb: "CHR ''|'' \<notin> set ?l"
    by (rule digits_no_bar) (rule str_nat_digits)
  have fb: "find_bar ?buffer = length ?l"
    using nb by (rule find_bar_prefix)
  have size: "utf8_decode ?l = Inr ?l" "py_int ?l = Inr (int (length doc))"
    using py_int_str_int [of "int (length doc)"]
    by (simp_all add: utf8_decode_ascii digits_ascii str_nat_digits str_int_nat)
  have msg: "py_slice ?buffer (int (length ?l) + 1) (int (length ?l) + 1 + int (length doc)) = doc"
    by (simp add: py_slice_def slice_index_def nat_add_distrib)
  have rest: "py_slice_from ?buffer (int (length ?l) + 1 + int (length doc)) = []"
    by (simp add: py_slice_from_def slice_index_def nat_add_distrib)
  have "drain_buffer ?buffer [] = drain_buffer [] ([] @ [doc])"
    by (subst drain_buffer.simps) (simp add: fb size msg rest utf8_decode_ascii assms)
  also have "\<dots> = Some ([doc], [], None)"
    by (simp add: drain_buffer_no_bar)
  finally show ?thesis by (simp add: str_int_nat)
qed

section \<open>JSON strings\<close>

lemma of_char_lt_256: "(of_char (c :: char) :: nat) < 256"
  by (metis of_char_mod_256 mod_less_divisor zero_less_numeral)

lemma unhex_hexdigit: "k < 16 \<Longrightarrow> unhex (hexdigit k) = Some k"
  by (auto simp: unhex_def hexdigit_def of_char_of Let_def)

lemma hexdigit_ascii: "k < 16 \<Longrightarrow> (of_char (hexdigit k) :: nat) < 128"
  by (auto simp: hexdigit_def of_char_of)

lemma escape_char_ascii: "ascii (escape_char c)"
proof -
  have "(of_char c :: nat) div 16 < 16"
    using of_char_lt_256 [of c] by (simp only: div_less_iff_less_mult)
  then have "(of_char (hexdigit (of_char c div 16)) :: nat) < 128"
    by (rule hexdigit_ascii)
  moreover have "(of_char (hexdigit (of_char c mod 16)) :: nat) < 128"
    by (rule hexdigit_ascii) simp
  ultimately show ?thesis
    by (auto simp: escape_char_def Let_def)
qed

lemma char_of_nat_eq: "(of_char c :: nat) = n \<Longrightarrow> char_of n = c"
  by auto

lemma unhex4_byte:
  "n < 256 \<Longrightarrow> unhex4 (CHR ''0'') (CHR ''0'') (hexdigit (n div 16)) (hexdigit (n mod 16)) = Some n"
proof -
  assume "n < 256"
  then have "n div 16 < 16" by simp
  then have "unhex (hexdigit (n div 16)) = Some (n div 16)" by (rule unhex_hexdigit)
  moreover have "unhex (hexdigit (n mod 16)) = Some (n mod 16)" by (rule unhex_hexdigit) simp
  moreover have "unhex (CHR ''0'') = Some 0" by (simp add: unhex_def)
  ultimately show ?thesis by (simp add: unhex4_def)
qed

lemma scan_string_escape_char:
  "scan_string (escape_char c @ rest) = cons_result c (scan_string rest)"
proof -
  let ?n = "of_char c :: nat"
  consider "c = CHR 0x22" | "c = CHR 0x5C" | "?n = 10" | "?n = 13" | "?n = 9" | "?n = 12" | "?n = 8"
    | "c \<noteq> CHR 0x22" "c \<noteq> CHR 0x5C" "?n \<notin> {8, 9, 10, 12, 13}" "?n < 32 \<or> 126 < ?n"
    | "c \<noteq> CHR 0x22" "c \<noteq> CHR 0x5C" "32 \<le> ?n" "?n \<le> 126"
    by fastforce
  then show ?thesis
  proof cases
    case 1
    then show ?thesis by (simp add: escape_char_def unescape_def)
  next
    case 2
    then show ?thesis by (simp add: escape_char_def unescape_def)
  next
    case 3
    then have "c = char_of (10 :: nat)" by (simp add: char_of_nat_eq)
    then show ?thesis by (simp add: escape_char_def unescape_def)
  next
    case 4
    then have "c = char_of (13 :: nat)" by (simp add: char_of_nat_eq)
    then show ?thesis by (simp add: escape_char_def unescape_def)
  next
    case 5
    then have "c = char_of (9 :: nat)" by (simp add: char_of_nat_eq)
    then show ?thesis by (simp add: escape_char_def unescape_def)
  next
    case 6
    then have "c = char_of (12 :: nat)" by (simp add: char_of_nat_eq)
    then show ?thesis by (simp add: escape_char_def unescape_def)
  next
    case 7
    then have "c = char_of (8 :: nat)" by (simp add: char_of_nat_eq)
    then show ?thesis by (simp add: escape_char_def unescape_def)
  next
    case 8
    then have e: "escape_char c = [CHR 0x5C, CHR ''u'', CHR ''0'', CHR ''0'',
                    hexdigit (?n div 16), hexdigit (?n mod 16)]"
      by (auto simp: escape_char_def Let_def)
    have "unhex4 (CHR ''0'') (CHR ''0'') (hexdigit (?n div 16)) (hexdigit (?n mod 16)) = Some ?n"
      by (rule unhex4_byte) (rule of_char_lt_256)
    then show ?thesis
      by (simp add: e of_char_lt_256)
  next
    case 9
    then have e: "escape_char c = [c]"
      by (auto simp: escape_char_def Let_def)
    from 9 show ?thesis by (simp add: e)
  qed
qed

lemma scan_string_escaped:
  "scan_string (concat (map escape_char s) @ CHR 0x22 # rest) = Inr (s, rest)"
  by (induction s) (simp_all add: scan_string_escape_char cons_result_def)

lemma encode_basestring_ascii_ascii: "ascii (encode_basestring_ascii s)"
proof -
  have "ascii (concat (map escape_char s))"
    by (induction s) (simp_all add: escape_char_ascii)
  then show ?thesis by (simp add: encode_basestring_ascii_def)
qed

section \<open>JSON numbers\<close>

lemma startswith_Nil: "startswith s []"
  by (simp add: startswith_def)

lemma startswith_Cons: "startswith (c # s) (p # ps) = (c = p \<and> startswith s ps)"
  by (simp add: startswith_def)

lemma startswith_empty: "startswith [] (p # ps) = False"
  by (simp add: startswith_def)

lemma digit_number_char: "py_isdigit c \<Longrightarrow> number_char c"
  by (simp add: number_char_def)

lemma digits_number_chars: "list_all py_isdigit s \<Longrightarrow> list_all number_char s"
  by (induction s) (simp_all add: digit_number_char)

lemma takeWhile_digits: "list_all py_isdigit (takeWhile py_isdigit s)"
  by (induction s) simp_all

lemma json_exponent_chars: "json_exponent t \<Longrightarrow> list_all number_char t"
  by (auto simp: json_exponent_def number_char_def list_all_iff
        split: list.splits if_splits)

lemma json_int_part_digits: "json_int_part s \<Longrightarrow> list_all py_isdigit s \<and> s \<noteq> []"
  by (auto simp: json_int_part_def py_isdigit_def)

lemma float_body_chars:
  assumes "json_int_part (takeWhile py_isdigit u)"
    and "case dropWhile py_isdigit u of
           [] \<Rightarrow> False
         | c # cs \<Rightarrow>
             if c = CHR ''.''
             then takeWhile py_isdigit cs \<noteq> []
                  \<and> (dropWhile py_isdigit cs = [] \<or> json_exponent (dropWhile py_isdigit cs))
             else json_exponent (c # cs)"
  shows "list_all number_char u" and "\<not> list_all py_isdigit u" and "u \<noteq> [] \<and> py_isdigit (hd u)"
proof -
  obtain c cs where r: "dropWhile py_isdigit u = c # cs"
    using assms(2) by (cases "dropWhile py_isdigit u") auto
  have u: "u = takeWhile py_isdigit u @ c # cs"
    using takeWhile_dropWhile_id [of py_isdigit u] r by simp
  have "list_all number_char (c # cs)"
  proof (cases "c = CHR ''.''")
    case True
    have "cs = takeWhile py_isdigit cs @ dropWhile py_isdigit cs" by simp
    moreover have "list_all number_char (takeWhile py_isdigit cs)"
      by (rule digits_number_chars) (rule takeWhile_digits)
    moreover have "list_all number_char (dropWhile py_isdigit cs)"
      using assms(2) r True
      by (auto simp del: dropWhile_eq_Nil_conv dest: json_exponent_chars)
    ultimately have "list_all number_char cs"
      by (metis list_all_append)
    with True show ?thesis by (simp add: number_char_def)
  next
    case False
    with assms(2) r show ?thesis by (auto dest: json_exponent_chars)
  qed
  moreover have "list_all number_char (takeWhile py_isdigit u)"
    by (rule digits_number_chars) (rule takeWhile_digits)
  ultimately show "list_all number_char u"
    by (subst u) simp
  have "\<not> py_isdigit c"
    using r by (metis dropWhile_eq_Cons_conv)
  then show "\<not> list_all py_isdigit u"
    by (subst u) simp
  from assms(1) have "takeWhile py_isdigit u \<noteq> []"
    by (auto dest: json_int_part_digits)
  then show "u \<noteq> [] \<and> py_isdigit (hd u)"
    by (cases u) (auto split: if_splits)
qed

lemma json_float_token_facts:
  assumes "json_float_token s"
  shows "list_all number_char s" and "\<not> json_int_token s" and "numeric_head s"
proof -
  let ?u = "case s of [] \<Rightarrow> [] | c # cs \<Rightarrow> if c = CHR ''-'' then cs else c # cs"
  from assms have a: "json_int_part (takeWhile py_isdigit ?u)"
    and b: "case dropWhile py_isdigit ?u of
           [] \<Rightarrow> False
         | c # cs \<Rightarrow>
             if c = CHR ''.''
             then takeWhile py_isdigit cs \<noteq> []
                  \<and> (dropWhile py_isdigit cs = [] \<or> json_exponent (dropWhile py_isdigit cs))
             else json_exponent (c # cs)"
    by (simp_all add: json_float_token_def Let_def)
  note f = float_body_chars [OF a b]
  from f(3) obtain c cs where s: "s = c # cs" by (cases s) auto
  show "list_all number_char s"
    using f(1) s by (auto simp: number_char_def split: if_splits)
  show "\<not> json_int_token s"
    using f(2) s by (auto simp: json_int_token_def dest: json_int_part_digits split: if_splits)
  show "numeric_head s"
    using f(3) s by (cases cs) (auto simp: numeric_head_def split: if_splits)
qed

lemma str_nat_0: "str_nat 0 = ''0''"
  by (subst str_nat.simps) (simp add: char_of_eq_iff)

lemma str_nat_hd_nonzero: "0 < n \<Longrightarrow> hd (str_nat n) \<noteq> CHR ''0''"
proof (induction n rule: str_nat.induct)
  case (1 n)
  show ?case
  proof (cases "n < 10")
    case True
    with 1(2) have "char_of (48 + n) \<noteq> CHR ''0''"
      by (auto simp: char_of_eq_iff take_bit_eq_mod)
    with True show ?thesis by (subst str_nat.simps) simp
  next
    case False
    then have "hd (str_nat (n div 10)) \<noteq> CHR ''0''" by (intro 1) auto
    with False show ?thesis
      by (subst str_nat.simps) (simp add: str_nat_nonempty)
  qed
qed

lemma json_int_part_str_nat: "json_int_part (str_nat n)"
proof (cases "n = 0")
  case True
  then show ?thesis by (simp add: str_nat_0 json_int_part_def)
next
  case False
  then show ?thesis
    by (simp add: json_int_part_def str_nat_nonempty str_nat_digits str_nat_hd_nonzero)
qed

lemma str_nat_not_minus: "hd (str_nat n) \<noteq> CHR ''-''"
  using str_nat_hd_digit [of n] by (auto simp: py_isdigit_def)

lemma str_int_facts:
  shows "json_int_token (str_int i)" and "list_all number_char (str_int i)"
    and "numeric_head (str_int i)"
proof -
  obtain c cs where s: "str_nat (nat \<bar>i\<bar>) = c # cs"
    using str_nat_nonempty [of "nat \<bar>i\<bar>"] by (cases "str_nat (nat \<bar>i\<bar>)") auto
  have d: "py_isdigit c" "c \<noteq> CHR ''-''"
    using str_nat_hd_digit [of "nat \<bar>i\<bar>"] str_nat_not_minus [of "nat \<bar>i\<bar>"] s by simp_all
  have p: "json_int_part (c # cs)"
    using json_int_part_str_nat [of "nat \<bar>i\<bar>"] s by simp
  have n: "list_all number_char (c # cs)"
    using digits_number_chars [OF str_nat_digits, of "nat \<bar>i\<bar>"] s by simp
  have e: "str_int i = (if i < 0 then CHR ''-'' # c # cs else c # cs)"
    using s by (auto simp: str_int_def abs_if)
  show "json_int_token (str_int i)"
    using p d by (simp add: e json_int_token_def)
  show "list_all number_char (str_int i)"
    using n by (simp add: e number_char_def)
  show "numeric_head (str_int i)"
    using d by (simp add: e numeric_head_def)
qed

lemma number_token_end:
  assumes "rest = [] \<or> \<not> number_char (hd rest)"
  shows "takeWhile number_char rest = []" and "dropWhile number_char rest = rest"
  using assms by (cases rest; simp)+

lemma number_token_split:
  assumes "list_all number_char tok" and "rest = [] \<or> \<not> number_char (hd rest)"
  shows "takeWhile number_char (tok @ rest) = tok" and "dropWhile number_char (tok @ rest) = rest"
  using assms(1) by (induction tok) (simp_all add: number_token_end [OF assms(2)])

lemma scan_value_number:
  assumes "numeric_head tok" and "list_all number_char tok"
    and "rest = [] \<or> \<not> number_char (hd rest)"
  shows "scan_value float_of (tok @ rest) =
           (if json_int_token tok
            then (case py_int tok of Inl e \<Rightarrow> Inl e | Inr i \<Rightarrow> Inr (JInt i, rest))
            else if json_float_token tok then Inr (JFloat (float_of tok), rest)
            else Inl ValueError)"
proof -
  from assms(1) obtain c cs where t: "tok = c # cs"
    and h: "py_isdigit c \<or> (c = CHR ''-'' \<and> (\<exists>d ds. cs = d # ds \<and> py_isdigit d))"
    by (auto simp: numeric_head_def split: list.splits)
  have c: "c \<noteq> CHR 0x22" "c \<noteq> CHR ''t''" "c \<noteq> CHR ''f''" "c \<noteq> CHR ''n''"
    "c \<noteq> CHR ''{''" "c \<noteq> CHR ''[''" "c \<noteq> CHR ''N''" "c \<noteq> CHR ''I''"
    using h by (auto simp: py_isdigit_def)
  have i: "\<not> startswith (tok @ rest) ''-Infinity''"
    using h t by (auto simp: startswith_Cons py_isdigit_def)
  have "scan_value float_of (tok @ rest) = scan_number float_of (tok @ rest)"
    using c i by (auto simp: t scan_value_def startswith_Cons)
  then show ?thesis
    by (simp add: scan_number_def Let_def number_token_split [OF assms(2,3)])
qed

lemma scan_value_dumps:
  assumes "rest = [] \<or> \<not> number_char (hd rest)"
    and "list_all (float_round_trip float_repr float_of) (floats_of [(k, v)])"
  shows "scan_value float_of (dumps_value float_repr v @ rest) = Inr (v, rest)"
proof (cases v)
  case (JStr s)
  then show ?thesis
    by (simp add: dumps_value_def encode_basestring_ascii_def scan_value_def
          scan_string_escaped [of s "[]", simplified] scan_string_escaped)
next
  case (JInt i)
  with scan_value_number [OF str_int_facts(3) [of i] str_int_facts(2) [of i] assms(1), of float_of]
  show ?thesis
    by (simp add: dumps_value_def str_int_facts(1) py_int_str_int)
next
  case (JFloat x)
  with assms(2) have f: "json_float_token (float_repr x)" "float_of (float_repr x) = x"
    by (simp_all add: float_round_trip_def)
  note t = json_float_token_facts [OF f(1)]
  from scan_value_number [OF t(3) t(1) assms(1), of float_of] JFloat f t(2)
  show ?thesis by (simp add: dumps_value_def)
next
  case (JBool b)
  then show ?thesis
    by (cases b) (simp_all add: dumps_value_def scan_value_def startswith_Cons startswith_Nil)
next
  case JNull
  then show ?thesis
    by (simp add: dumps_value_def scan_value_def startswith_Cons startswith_Nil)
qed

section \<open>JSON objects\<close>

lemma skip_ws_keep: "\<not> json_ws c \<Longrightarrow> skip_ws (c # s) = c # s"
  by (simp add: skip_ws_def)

lemma skip_ws_space: "skip_ws (CHR '' '' # s) = skip_ws s"
  by (simp add: skip_ws_def json_ws_def)

lemma skip_ws_Nil: "skip_ws [] = []"
  by (simp add: skip_ws_def)

lemma numeric_head_not_ws: "numeric_head s \<Longrightarrow> \<exists>c cs. s = c # cs \<and> \<not> json_ws c"
  by (auto simp: numeric_head_def json_ws_def py_isdigit_def split: list.splits)

lemma floats_of_Cons:
  assumes "list_all P (floats_of ((k, v) # d))"
  shows "list_all P (floats_of [(k, v)])" and "list_all P (floats_of d)"
  using assms by (cases v; simp)+

lemma dumps_value_head:
  assumes "list_all (float_round_trip float_repr float_of) (floats_of [(k, v)])"
  shows "\<exists>c cs. dumps_value float_repr v = c # cs \<and> \<not> json_ws c"
proof (cases v)
  case (JStr s)
  then show ?thesis by (simp add: dumps_value_def encode_basestring_ascii_def json_ws_def)
next
  case (JInt i)
  with numeric_head_not_ws [OF str_int_facts(3), of i] show ?thesis
    by (simp add: dumps_value_def)
next
  case (JFloat x)
  with assms have "json_float_token (float_repr x)" by (simp add: float_round_trip_def)
  then have "numeric_head (float_repr x)" by (rule json_float_token_facts)
  with JFloat numeric_head_not_ws show ?thesis by (simp add: dumps_value_def)
next
  case (JBool b)
  then show ?thesis by (cases b) (simp_all add: dumps_value_def json_ws_def)
next
  case JNull
  then show ?thesis by (simp add: dumps_value_def json_ws_def)
qed

lemma scan_item:
  assumes "list_all (float_round_trip float_repr float_of) (floats_of [(k, v)])"
    and "rest = c # r" and "c = CHR ''}'' \<or> c = CHR '',''"
  shows "scan_items float_of (Suc n) (dumps_item float_repr (k, v) @ rest) =
           (if c = CHR ''}'' then Inr ([(k, v)], r)
            else (case scan_items float_of n (skip_ws r) of
                    Inl e \<Rightarrow> Inl e
                  | Inr (items, r5) \<Rightarrow> Inr ((k, v) # items, r5)))"
proof -
  obtain d ds where val: "dumps_value float_repr v = d # ds" and d: "\<not> json_ws d"
    using dumps_value_head [OF assms(1)] by blast
  have nc: "rest = [] \<or> \<not> number_char (hd rest)"
    using assms(2,3) by (auto simp: number_char_def py_isdigit_def)
  have sv: "scan_value float_of (d # ds @ rest) = Inr (v, rest)"
    using scan_value_dumps [OF nc assms(1)] val by simp
  have ws: "\<not> json_ws c" "\<not> json_ws (CHR '':'')"
    using assms(3) by (auto simp: json_ws_def)
  have inp: "dumps_item float_repr (k, v) @ rest =
               CHR 0x22 # (concat (map escape_char k) @ CHR 0x22 # ('': '' @ d # ds @ rest))"
    by (simp add: dumps_item_def encode_basestring_ascii_def val)
  have sr: "skip_ws rest = c # r"
    using ws(1) by (simp add: assms(2) skip_ws_keep)
  have "scan_items float_of (Suc n) (dumps_item float_repr (k, v) @ rest) =
          (if c = CHR ''}'' then Inr ([(k, v)], r)
           else if c = CHR '','' then
             (case scan_items float_of n (skip_ws r) of
                Inl e \<Rightarrow> Inl e
              | Inr (items, r5) \<Rightarrow> Inr ((k, v) # items, r5))
           else Inl ValueError)"
    unfolding inp
    by (simp add: scan_items.simps scan_string_escaped skip_ws_keep ws(2) d skip_ws_space sv sr)
  with assms(3) show ?thesis by auto
qed

lemma join_items_Cons:
  "xs \<noteq> [] \<Longrightarrow> join_items (x # xs) = x @ '', '' @ join_items xs"
  by (cases xs) simp_all

lemma join_items_head:
  assumes "d \<noteq> []"
  shows "\<exists>t. join_items (map (dumps_item float_repr) d) = CHR 0x22 # t"
proof -
  from assms obtain kv d' where d: "d = kv # d'" by (cases d) auto
  show ?thesis
    by (cases d') (simp_all add: d dumps_item_def encode_basestring_ascii_def)
qed

lemma scan_items_dumps:
  assumes "d \<noteq> []" and "length d \<le> n"
    and "list_all (float_round_trip float_repr float_of) (floats_of d)"
  shows "scan_items float_of n (join_items (map (dumps_item float_repr) d) @ CHR ''}'' # rest)
           = Inr (d, rest)"
  using assms
proof (induction d arbitrary: n)
  case Nil
  then show ?case by simp
next
  case (Cons kv d)
  obtain k v where kv: "kv = (k, v)" by (cases kv)
  from Cons.prems(2) obtain m where n: "n = Suc m" and m: "length d \<le> m"
    by (cases n) auto
  from Cons.prems(3) have f1: "list_all (float_round_trip float_repr float_of) (floats_of [(k, v)])"
    and f2: "list_all (float_round_trip float_repr float_of) (floats_of d)"
    unfolding kv by (rule floats_of_Cons)+
  show ?case
  proof (cases "d = []")
    case True
    with scan_item [OF f1, of "CHR ''}'' # rest" "CHR ''}''" rest m]
    show ?thesis by (simp add: kv n)
  next
    case False
    obtain t where t: "join_items (map (dumps_item float_repr) d) = CHR 0x22 # t"
      using join_items_head [OF False] by blast
    have ih: "scan_items float_of m (join_items (map (dumps_item float_repr) d) @ CHR ''}'' # rest)
                = Inr (d, rest)"
      using False m f2 by (rule Cons.IH)
    have sk: "skip_ws (CHR '' '' # join_items (map (dumps_item float_repr) d) @ CHR ''}'' # rest)
                = join_items (map (dumps_item float_repr) d) @ CHR ''}'' # rest"
      by (simp add: skip_ws_space t skip_ws_keep json_ws_def)
    have "join_items (map (dumps_item float_repr) (kv # d)) @ CHR ''}'' # rest
            = dumps_item float_repr (k, v)
              @ (CHR '','' # CHR '' '' # join_items (map (dumps_item float_repr) d) @ CHR ''}'' # rest)"
      using False by (simp add: kv join_items_Cons)
    with scan_item [OF f1, of "CHR '','' # CHR '' '' # join_items (map (dumps_item float_repr) d)
                                 @ CHR ''}'' # rest" "CHR '',''" _ m]
    show ?thesis by (simp add: n sk ih kv)
  qed
qed

lemma dumps_item_nonempty: "dumps_item float_repr kv \<noteq> []"
  by (simp add: dumps_item_def encode_basestring_ascii_def)

lemma length_join_items: "(\<forall>x \<in> set xs. x \<noteq> []) \<Longrightarrow> length xs \<le> length (join_items xs)"
proof (induction xs rule: join_items.induct)
  case 1
  show ?case by simp
next
  case (2 x)
  then show ?case by (cases x) simp_all
next
  case (3 x y zs)
  then show ?case by simp
qed

lemma dict_set_fresh: "k \<notin> fst ` set d \<Longrightarrow> dict_set k v d = d @ [(k, v)]"
  by (simp add: dict_set_def)

lemma dict_of_items_distinct_aux:
  "distinct (map fst (acc @ items)) \<Longrightarrow>
     fold (\<lambda>(k, v) d. dict_set k v d) items acc = acc @ items"
proof (induction items arbitrary: acc)
  case Nil
  show ?case by simp
next
  case (Cons kv items)
  obtain k v where kv: "kv = (k, v)" by (cases kv)
  from Cons.prems have "k \<notin> fst ` set acc" by (auto simp: kv)
  then have "dict_set k v acc = acc @ [(k, v)]" by (rule dict_set_fresh)
  moreover from Cons.prems have "distinct (map fst ((acc @ [(k, v)]) @ items))" by (simp add: kv)
  ultimately show ?case using Cons.IH [of "acc @ [(k, v)]"] by (simp add: kv)
qed

lemma dict_of_items_distinct: "distinct (map fst d) \<Longrightarrow> dict_of_items d = d"
  using dict_of_items_distinct_aux [of "[]" d] by (simp add: dict_of_items_def)

lemma json_loads_dumps:
  assumes "list_all (float_round_trip float_repr float_of) (floats_of d)"
  shows "json_loads float_of (json_dumps float_repr d) = Inr (dict_of_items d)"
proof (cases "d = []")
  case True
  then show ?thesis
    by (simp add: json_loads_def json_dumps_def skip_ws_keep json_ws_def skip_ws_Nil
          dict_of_items_def)
next
  case False
  let ?body = "join_items (map (dumps_item float_repr) d)"
  obtain t where t: "?body = CHR 0x22 # t"
    using join_items_head [OF False] by blast
  have "length (map (dumps_item float_repr) d) \<le> length ?body"
    by (rule length_join_items) (simp add: dumps_item_nonempty)
  then have len: "length d \<le> length (?body @ ''}'')" by simp
  have items: "scan_items float_of (length (?body @ ''}'')) (?body @ CHR ''}'' # []) = Inr (d, [])"
    using False len assms by (rule scan_items_dumps)
  have "json_loads float_of (CHR ''{'' # ?body @ ''}'') = Inr (dict_of_items d)"
    using items unfolding t
    by (simp add: json_loads_def skip_ws_keep json_ws_def skip_ws_Nil)
  then show ?thesis by (simp add: json_dumps_def)
qed

lemma number_chars_ascii: "list_all number_char s \<Longrightarrow> ascii s"
  by (induction s) (auto simp: number_char_def py_isdigit_def)

lemma dumps_item_ascii:
  assumes "list_all (float_round_trip float_repr float_of) (floats_of [(k, v)])"
  shows "ascii (dumps_item float_repr (k, v))"
proof -
  have "ascii (dumps_value float_repr v)"
  proof (cases v)
    case (JFloat x)
    with assms have "json_float_token (float_repr x)" by (simp add: float_round_trip_def)
    then have "list_all number_char (float_repr x)" by (rule json_float_token_facts)
    with JFloat show ?thesis by (simp add: dumps_value_def number_chars_ascii)
  qed (simp_all add: dumps_value_def encode_basestring_ascii_ascii str_int_ascii)
  then show ?thesis
    by (simp add: dumps_item_def encode_basestring_ascii_ascii)
qed

lemma json_dumps_ascii:
  assumes "list_all (float_round_trip float_repr float_of) (floats_of d)"
  shows "ascii (json_dumps float_repr d)"
proof -
  have "ascii (join_items (map (dumps_item float_repr) d))"
    using assms
  proof (induction d)
    case Nil
    show ?case by simp
  next
    case (Cons kv d)
    obtain k v where kv: "kv = (k, v)" by (cases kv)
    from Cons.prems have f: "list_all (float_round_trip float_repr float_of) (floats_of [(k, v)])"
      "list_all (float_round_trip float_repr float_of) (floats_of d)"
      unfolding kv by (rule floats_of_Cons)+
    show ?case
    proof (cases "d = []")
      case True
      with dumps_item_ascii [OF f(1)] show ?thesis by (simp add: kv)
    next
      case False
      with dumps_item_ascii [OF f(1)] Cons.IH [OF f(2)] show ?thesis
        by (simp add: kv join_items_Cons)
    qed
  qed
  then show ?thesis by (simp add: json_dumps_def)
qed

section \<open>The framing of a broadcast\<close>

text \<open>Claim C4. For a packet whose floats print as JSON numbers that read back as
  themselves, the wire message is the decimal length of the packet's JSON text, a bar
  and the JSON text; the text is ASCII, so its encoding has exactly the announced
  number of bytes. The viewer's receiving loop, run on the message, ends, hands on
  exactly the JSON text and leaves an empty buffer, and parsing the text gives back
  the packet.\<close>

theorem broadcast_framing_round_trip:
  assumes "list_all (float_round_trip float_repr float_of) (floats_of packet)"
    and "distinct (map fst packet)"
  shows "wire_message float_repr packet
           = str_int (int (length (json_dumps float_repr packet))) @ ''|''
             @ json_dumps float_repr packet
       \<and> length (utf8_encode (json_dumps float_repr packet))
           = length (json_dumps float_repr packet)
       \<and> drain_buffer (wire_message float_repr packet) []
           = Some ([json_dumps float_repr packet], [], None)
       \<and> process_frame_packet float_of (json_dumps float_repr packet) = Inr packet"
proof -
  let ?doc = "json_dumps float_repr packet"
  have a: "ascii ?doc"
    using assms(1) by (rule json_dumps_ascii)
  have "ascii (str_int (int (length ?doc)) @ ''|'' @ ?doc)"
    using a by (simp add: str_int_ascii)
  then have w: "wire_message float_repr packet = str_int (int (length ?doc)) @ ''|'' @ ?doc"
    by (simp add: wire_message_def Let_def utf8_encode_ascii)
  have d: "drain_buffer (str_int (int (length ?doc)) @ ''|'' @ ?doc) [] = Some ([?doc], [], None)"
    using a by (rule drain_buffer_frame)
  have p: "process_frame_packet float_of ?doc = Inr packet"
    using json_loads_dumps [OF assms(1)] dict_of_items_distinct [OF assms(2)]
    by (simp add: process_frame_packet_def)
  from w d p a show ?thesis
    by (simp add: utf8_encode_ascii)
qed

theorem broadcast_framing_round_trip_witness:
  \<open>list_all (float_round_trip sample_repr sample_float) (floats_of sample_packet)
   \<and> distinct (map fst sample_packet)
   \<and> wire_message sample_repr sample_packet
       = ''183|{"type": "screen_frame", "timestamp": 1.5, "width": 1280, "height": 720, "data": "/9j/4AAQ", "motion_detected": true, "motion_percentage": 12.49, "threat_level": 2, "zone": "Unknown"}''
   \<and> drain_buffer (wire_message sample_repr sample_packet) []
       = Some ([json_dumps sample_repr sample_packet], [], None)
   \<and> process_frame_packet sample_float (json_dumps sample_repr sample_packet)
       = Inr sample_packet\<close>
proof -
  have h: "list_all (float_round_trip sample_repr sample_float) (floats_of sample_packet)"
    "distinct (map fst sample_packet)"
    by code_simp+
  have m: \<open>wire_message sample_repr sample_packet
       = ''183|{"type": "screen_frame", "timestamp": 1.5, "width": 1280, "height": 720, "data": "/9j/4AAQ", "motion_detected": true, "motion_percentage": 12.49, "threat_level": 2, "zone": "Unknown"}''\<close>
    by code_simp
  note t = broadcast_framing_round_trip [OF h]
  from t have d: "drain_buffer (wire_message sample_repr sample_packet) []
       = Some ([json_dumps sample_repr sample_packet], [], None)"
    by blast
  from t have p: "process_frame_packet sample_float (json_dumps sample_repr sample_packet)
       = Inr sample_packet"
    by blast
  from h m d p show ?thesis by blast
qed

end
